theory Spec2Isabelle
  imports Main "HOL-Library.Sublist" "HOL-Library.AList" "HOL-Library.Char_ord"
    "HOL-Library.List_Lexorder"
begin

section \<open>Strings as Python reads them\<close>

text \<open>
  Python \<^verbatim>\<open>str\<close> values are modelled as \<^typ>\<open>string\<close>, one \<^typ>\<open>char\<close> per code
  point below 256. \<^verbatim>\<open>str.isspace\<close>, \<^verbatim>\<open>str.strip\<close> and the regular
  expression class \<^verbatim>\<open>\s\<close> agree on what whitespace is: the code points 9 to 13,
  28 to 32, 0x85 and 0xA0 (the ones below 256).
\<close>

definition isspace :: "char \<Rightarrow> bool" where
  "isspace c =
     (let n = (of_char c :: nat)
      in (9 \<le> n \<and> n \<le> 13) \<or> (28 \<le> n \<and> n \<le> 32) \<or> n = 133 \<or> n = 160)"

text \<open>\<^verbatim>\<open>s.strip()\<close>: whitespace removed at both ends.\<close>

definition strip :: "string \<Rightarrow> string" where
  "strip s = rev (dropWhile isspace (rev (dropWhile isspace s)))"

text \<open>
  \<^verbatim>\<open>s.splitlines()\<close>: the text is cut at every line boundary (LF, CR, CR LF, VT, FF,
  FS, GS, RS, NEL); the boundaries are dropped and a boundary at the very end opens no
  further line, so the empty text has no line at all.
\<close>

definition is_linebreak :: "char \<Rightarrow> bool" where
  "is_linebreak c =
     (let n = (of_char c :: nat)
      in (10 \<le> n \<and> n \<le> 13) \<or> (28 \<le> n \<and> n \<le> 30) \<or> n = 133)"

fun add_char :: "char \<Rightarrow> string list \<Rightarrow> string list" where
  "add_char c [] = [[c]]"
| "add_char c (l # ls) = (c # l) # ls"

fun splitlines :: "string \<Rightarrow> string list" where
  "splitlines [] = []"
| "splitlines (c # cs) =
     (if c = CHR 0x0D then
        (case cs of
           [] \<Rightarrow> [[]]
         | d # ds \<Rightarrow> if d = CHR 0x0A then [] # splitlines ds else [] # splitlines cs)
      else if is_linebreak c then [] # splitlines cs
      else add_char c (splitlines cs))"

text \<open>\<^verbatim>\<open>s.split(',')\<close>: always at least one piece; the pieces may be empty.\<close>

fun split_comma :: "string \<Rightarrow> string list" where
  "split_comma [] = [[]]"
| "split_comma (c # cs) =
     (if c = CHR '','' then [] # split_comma cs else add_char c (split_comma cs))"

text \<open>\<^verbatim>\<open>"\n".join(lines)\<close>.\<close>

fun join_lines :: "string list \<Rightarrow> string" where
  "join_lines [] = []"
| "join_lines [l] = l"
| "join_lines (l # m # ls) = l @ CHR 0x0A # join_lines (m # ls)"

section \<open>Output record parser\<close>

subsection \<open>ANSI colour sequences\<close>

text \<open>
  \<^verbatim>\<open>_strip_ansi\<close> is \<^verbatim>\<open>re.sub(r"\x1b\[[0-9;]*m", "", s)\<close>. Scanning from the left, an
  ESC followed by an opening bracket, then the longest run of digits and semicolons, then
  the letter m, is dropped as a whole. When the run is not followed by m there is no
  match at this ESC (giving characters of the run back cannot help, m is not one of
  them), so the ESC is kept and the scan goes on behind it.
\<close>

definition is_sgr_param :: "char \<Rightarrow> bool" where
  "is_sgr_param c = (let n = (of_char c :: nat) in (48 \<le> n \<and> n \<le> 57) \<or> n = 59)"

function strip_ansi :: "string \<Rightarrow> string" where
  "strip_ansi [] = []"
| "strip_ansi (c # cs) =
     (if c = CHR 0x1B then
        (case cs of
           [] \<Rightarrow> [c]
         | b # r \<Rightarrow>
             if b = CHR ''['' then
               (case dropWhile is_sgr_param r of
                  [] \<Rightarrow> c # strip_ansi cs
                | m # r' \<Rightarrow> if m = CHR ''m'' then strip_ansi r' else c # strip_ansi cs)
             else c # strip_ansi cs)
      else c # strip_ansi cs)"
  by pat_completeness auto
termination
proof (relation "measure length")
  show "wf (measure length)" by simp
next
  fix c :: char and cs b r m r'
  assume "cs = b # r" and dw: "dropWhile is_sgr_param r = m # r'"
  have "length (dropWhile is_sgr_param r) \<le> length r"
    by (rule length_dropWhile_le)
  with dw \<open>cs = b # r\<close> show "(r', c # cs) \<in> measure length" by simp
qed simp_all

subsection \<open>The block-start pattern\<close>

text \<open>
  \<^verbatim>\<open>start_pat\<close> is
  \<^verbatim>\<open>^\s*(.+?)\s*->\s*(.+?)(?:\s*\(score:.*)?\s*$\<close>, used with \<^verbatim>\<open>match\<close> on one
  line (a line holds no line break, so the dot stands for any character and the dollar
  for the end of the line).

  Which arrow the backtracking search settles on: the leading \<^verbatim>\<open>\s*\<close> is greedy and
  first takes all leading whitespace; the lazy first group then takes one character and
  grows one at a time, and behind it \<^verbatim>\<open>\s*\<close> has to end exactly at an arrow. What
  follows the arrow matches as soon as it is not empty (the second group can take all of
  it). So the search stops at the first arrow that has at least one character of the
  trimmed line before it and at least one character after it: \<open>find_arrow\<close>. Only when
  there is none does the leading \<^verbatim>\<open>\s*\<close> give a character back, and then the one
  arrow that can still match is the one right behind the leading whitespace.
\<close>

fun find_arrow :: "string \<Rightarrow> string option" where
  "find_arrow (x # y # z # zs) =
     (if x = CHR ''-'' \<and> y = CHR ''>'' then Some (z # zs) else find_arrow (y # z # zs))"
| "find_arrow _ = None"

fun arrow_here :: "string \<Rightarrow> string option" where
  "arrow_here (x # y # z # zs) = (if x = CHR ''-'' \<and> y = CHR ''>'' then Some (z # zs) else None)"
| "arrow_here _ = None"

text \<open>The text behind the arrow the match settles on; \<open>None\<close> when the line does not match.\<close>

definition after_arrow :: "string \<Rightarrow> string option" where
  "after_arrow ln =
     (case dropWhile isspace ln of
        [] \<Rightarrow> None
      | h # t \<Rightarrow>
          (case find_arrow t of
             Some a \<Rightarrow> Some a
           | None \<Rightarrow> if length (h # t) < length ln then arrow_here (h # t) else None))"

text \<open>
  The second group: behind the arrow \<^verbatim>\<open>\s*\<close> takes the whitespace, the lazy group
  starts at the first other character and stops at the first place from which the rest
  of the line is whitespace followed by \<^verbatim>\<open>(score:\<close>, or whitespace only. When
  nothing but whitespace follows the arrow, the group is the last of these whitespace
  characters.
\<close>

definition stop_here :: "string \<Rightarrow> bool" where
  "stop_here xs = (let r = dropWhile isspace xs in r = [] \<or> prefix ''(score:'' r)"

fun lazy_rest :: "string \<Rightarrow> string" where
  "lazy_rest [] = []"
| "lazy_rest (y # ys) = (if stop_here (y # ys) then [] else y # lazy_rest ys)"

definition group2 :: "string \<Rightarrow> string" where
  "group2 a =
     (case dropWhile isspace a of
        [] \<Rightarrow> (case rev a of [] \<Rightarrow> [] | l # _ \<Rightarrow> [l])
      | x # xs \<Rightarrow> x # lazy_rest xs)"

text \<open>\<^verbatim>\<open>start_pat.match(ln)\<close> as a truth value, and \<^verbatim>\<open>m.group(2).strip() if m else ""\<close>.\<close>

definition start_pat_match :: "string \<Rightarrow> bool" where
  "start_pat_match ln = (after_arrow ln \<noteq> None)"

definition dest_of :: "string \<Rightarrow> string" where
  "dest_of ln = (case after_arrow ln of None \<Rightarrow> [] | Some a \<Rightarrow> strip (group2 a))"

subsection \<open>\<^verbatim>\<open>_parse_routes\<close>\<close>

record route =
  block :: string
  dest :: string

text \<open>
  Closing a block: \<^verbatim>\<open>block = "\n".join(current).strip()\<close>, and a record is appended
  only if the block is not empty; its destination is read off \<^verbatim>\<open>current[0]\<close>.
\<close>

fun close_block :: "string list \<Rightarrow> route list \<Rightarrow> route list" where
  "close_block [] routes = routes"
| "close_block (first # others) routes =
     (let blk = strip (join_lines (first # others))
      in if blk \<noteq> [] then routes @ [\<lparr>block = blk, dest = dest_of first\<rparr>] else routes)"

text \<open>The loop over the lines, carrying \<^verbatim>\<open>routes\<close> and \<^verbatim>\<open>current\<close>.\<close>

fun parse_lines :: "string list \<Rightarrow> route list \<Rightarrow> string list \<Rightarrow> route list \<times> string list" where
  "parse_lines [] routes current = (routes, current)"
| "parse_lines (ln # lns) routes current =
     (let (routes1, current1) =
            (if start_pat_match ln \<and> current \<noteq> [] then (close_block current routes, [])
             else (routes, current))
      in if strip ln = [] then
           (if current1 \<noteq> [] then parse_lines lns routes1 (current1 @ [ln])
            else parse_lines lns routes1 current1)
         else parse_lines lns routes1 (current1 @ [ln]))"

definition parse_routes :: "string \<Rightarrow> route list" where
  "parse_routes text =
     (let lines = splitlines (strip_ansi text);
          (routes, current) = parse_lines lines [] []
      in if current \<noteq> [] then close_block current routes else routes)"

section \<open>Command specification model\<close>

text \<open>
  An \<^verbatim>\<open>OptionSpec\<close> holds the names of one argument declaration (\<^verbatim>\<open>args\<close>), its
  keyword dictionary and the group it was flattened from. Of the keywords the engine
  reads \<^verbatim>\<open>dest\<close>, \<^verbatim>\<open>action\<close> and \<^verbatim>\<open>default\<close>; help, metavar and choices are
  display only. Every declaration carries at least one name (the selector could not even
  label a spec without one), so \<^verbatim>\<open>args\<close> is a first name and the names after it.
  \<open>default_text\<close> is \<open>None\<close> when \<^verbatim>\<open>spec.default in (None, False)\<close> and otherwise
  holds \<^verbatim>\<open>str(spec.default)\<close>, the only two things the engine asks of a default.

  The class is declared \<^verbatim>\<open>eq=False\<close>: specs are dictionary keys and list members by
  object identity. \<open>ident\<close> stands for that identity, one number per object, so that
  equality of two records is identity of the two objects.
\<close>

record OptionSpec =
  ident :: nat
  first_arg :: string
  more_args :: "string list"
  kw_dest :: "string option"
  kw_action :: "string option"
  default_text :: "string option"
  group_id :: "nat option"

definition args :: "OptionSpec \<Rightarrow> string list" where
  "args s = first_arg s # more_args s"

definition long_flag :: "OptionSpec \<Rightarrow> string" where
  "long_flag s = (case filter (prefix ''--'') (args s) of [] \<Rightarrow> first_arg s | l # _ \<Rightarrow> l)"

definition display_name :: "OptionSpec \<Rightarrow> string" where
  "display_name s = long_flag s"

definition is_flag :: "OptionSpec \<Rightarrow> bool" where
  "is_flag s = (kw_action s = Some ''store_true'')"

definition is_positional :: "OptionSpec \<Rightarrow> bool" where
  "is_positional s = (\<not> prefix ''-'' (first_arg s))"

definition multiple :: "OptionSpec \<Rightarrow> bool" where
  "multiple s = (kw_action s = Some ''append'')"

text \<open>\<^verbatim>\<open>kwargs.get("dest") or args[0]\<close>: an empty \<^verbatim>\<open>dest\<close> counts as none.\<close>

definition key :: "OptionSpec \<Rightarrow> string" where
  "key s = (case kw_dest s of None \<Rightarrow> first_arg s | Some d \<Rightarrow> if d \<noteq> [] then d else first_arg s)"

record CommandMeta =
  name :: string
  arguments :: "OptionSpec list"
  switches :: "OptionSpec list"
  fixed_args :: "string list option"

text \<open>The convenience entry that \<^verbatim>\<open>load_commands\<close> adds under the label "Update/Rebuild DB".\<close>

definition update_rebuild_db :: CommandMeta where
  "update_rebuild_db =
     \<lparr>name = ''import'', arguments = [], switches = [],
      fixed_args = Some [''import'', ''-P'', ''eddblink'', ''-O'', ''clean,all,skipvend,force'']\<rparr>"

subsection \<open>\<^verbatim>\<open>_categorize_current\<close>\<close>

definition lstrip_dash :: "string \<Rightarrow> string" where
  "lstrip_dash s = dropWhile (\<lambda>c. c = CHR ''-'') s"

definition dest_or_flag :: "OptionSpec \<Rightarrow> string" where
  "dest_or_flag s =
     (case kw_dest s of
        None \<Rightarrow> lstrip_dash (long_flag s)
      | Some d \<Rightarrow> if d \<noteq> [] then d else lstrip_dash (long_flag s))"

text \<open>
  \<^verbatim>\<open>by_dest[key1] = s; by_dest.setdefault(key2, s)\<close> for every spec in turn.
\<close>

definition add_by_dest :: "(string \<rightharpoonup> OptionSpec) \<Rightarrow> OptionSpec \<Rightarrow> (string \<rightharpoonup> OptionSpec)" where
  "add_by_dest bd s =
     (let bd1 = bd(dest_or_flag s \<mapsto> s);
          key2 = lstrip_dash (long_flag s)
      in case bd1 key2 of None \<Rightarrow> bd1(key2 \<mapsto> s) | Some _ \<Rightarrow> bd1)"

definition sects :: "(string \<times> string list) list" where
  "sects =
     [(''Required'', [''capacity'', ''credits'']),
      (''Other'', [''starting'', ''ending'', ''via'', ''limit'', ''blackMarket'', ''unique'',
                  ''pruneScores'', ''shorten'', ''routes'', ''maxRoutes'', ''pruneHops'']),
      (''Travel'', [''goalSystem'', ''loop'', ''direct'', ''hops'', ''maxJumpsPer'', ''maxLyPer'',
                   ''emptyLyPer'', ''startJumps'', ''endJumps'', ''showJumps'', ''supply'',
                   ''demand'']),
      (''Filters'', [''avoid'', ''maxAge'', ''lsPenalty'', ''demand'', ''supply'']),
      (''Constraints'', [''padSize'', ''noPlanet'', ''planetary'', ''fleet'', ''odyssey'', ''maxLs'']),
      (''Economy'', [''minGainPerTon'', ''maxGainPerTon'', ''margin'', ''insurance'']),
      (''Display'', [''checklist'', ''x52pro'', ''progress'', ''summary''])]"

text \<open>One name of a section: the spec filed under it is taken unless it was used before.\<close>

definition pick_name ::
  "(string \<rightharpoonup> OptionSpec) \<Rightarrow> OptionSpec list \<times> OptionSpec list \<Rightarrow> string
     \<Rightarrow> OptionSpec list \<times> OptionSpec list" where
  "pick_name bd acc n =
     (case acc of (specs, used) \<Rightarrow>
        (case bd n of
           None \<Rightarrow> (specs, used)
         | Some s \<Rightarrow> if s \<notin> set used then (specs @ [s], used @ [s]) else (specs, used)))"

definition add_section ::
  "(string \<rightharpoonup> OptionSpec) \<Rightarrow> (string \<times> OptionSpec list) list \<times> OptionSpec list
     \<Rightarrow> string \<times> string list \<Rightarrow> (string \<times> OptionSpec list) list \<times> OptionSpec list" where
  "add_section bd acc sect =
     (case acc of (result, used) \<Rightarrow>
        (case sect of (title, names) \<Rightarrow>
           (case foldl (pick_name bd) ([], used) names of (specs, used') \<Rightarrow>
              (if specs \<noteq> [] then result @ [(title, specs)] else result, used'))))"

definition categorize :: "CommandMeta \<Rightarrow> (string \<times> OptionSpec list) list" where
  "categorize m =
     (let required = arguments m; other = switches m
      in if name m = ''run'' then
           (let bd = foldl add_by_dest Map.empty (required @ other)
            in case foldl (add_section bd) ([], []) sects of (result, used) \<Rightarrow>
                 (let remaining = filter (\<lambda>s. s \<notin> set used) (required @ other)
                  in if remaining \<noteq> [] then result @ [(''Misc'', remaining)] else result))
         else [(''Required'', required), (''Other'', other)])"

text \<open>Every caller walks the groups in order and the specs of each group in order.\<close>

definition specs_of :: "CommandMeta \<Rightarrow> OptionSpec list" where
  "specs_of m = concat (map snd (categorize m))"

section \<open>Preferences document\<close>

text \<open>
  The preferences file is one JSON object. The model keeps the entries the program reads
  and writes, each with the type the program writes it in; \<open>None\<close> is a key that is
  absent (or, for the entries \<^verbatim>\<open>_load_prefs\<close> tests with \<^verbatim>\<open>isinstance\<close>, holds a value
  of another type). An absent \<^verbatim>\<open>commands\<close> or \<^verbatim>\<open>options\<close> object reads like an empty
  one (\<^verbatim>\<open>get(..., {})\<close>, \<^verbatim>\<open>setdefault(..., {})\<close>) and is not told apart from it.
\<close>

record opt_rec =
  r_selected :: "bool option"
  r_flag :: "bool option"
  r_value :: "string option"

record cmd_state =
  cs_options :: "string \<rightharpoonup> opt_rec"
  cs_output :: "string option"

record prefs_doc =
  p_cwd :: "string option"
  p_db :: "string option"
  p_linkly :: "string option"
  p_detail :: "int option"
  p_quiet :: "int option"
  p_debug :: "int option"
  p_selected_command :: "string option"
  p_commands :: "string \<rightharpoonup> cmd_state"

definition empty_rec :: opt_rec where
  "empty_rec = \<lparr>r_selected = None, r_flag = None, r_value = None\<rparr>"

definition empty_cmd_state :: cmd_state where
  "empty_cmd_state = \<lparr>cs_options = Map.empty, cs_output = None\<rparr>"

definition empty_prefs :: prefs_doc where
  "empty_prefs =
     \<lparr>p_cwd = None, p_db = None, p_linkly = None, p_detail = None, p_quiet = None,
      p_debug = None, p_selected_command = None, p_commands = Map.empty\<rparr>"

text \<open>What is on disk: no file, a file that is not a JSON object, or a document.\<close>

datatype disk_file = NoFile | Unreadable | Stored prefs_doc

section \<open>Application state\<close>

text \<open>
  A row of the editor panel is the \<^verbatim>\<open>widgets\<close> dictionary kept in \<^verbatim>\<open>_selected\<close>: it
  holds a boolean variable under \<^verbatim>\<open>"flag"\<close> or a string variable under \<^verbatim>\<open>"value"\<close>
  (its grid position and help label are layout). Dictionaries that are walked in order
  are association lists in insertion order. \<open>output_text\<close> is the text of the output widget;
  Tk keeps a newline of its own behind it, and \<^verbatim>\<open>output.get("1.0", tk.END)\<close> returns the
  text with that newline.
\<close>

datatype row = FlagRow bool | ValueRow string

record app =
  cwd_var :: string
  db_var :: string
  linkly_var :: string
  detail_var :: int
  quiet_var :: int
  debug_var :: int
  cmd_var :: string
  cmd_metas :: "(string \<times> CommandMeta) list"
  current_meta :: "CommandMeta option"
  current_cmd_label :: "string option"
  widget_vars :: "(OptionSpec \<times> bool) list"
  selected :: "(OptionSpec \<times> row) list"
  output_text :: string
  prefs :: prefs_doc
  restore_cmd :: "string option"
  suspend_save :: bool
  disk :: disk_file

definition categorize_current :: "app \<Rightarrow> (string \<times> OptionSpec list) list" where
  "categorize_current st = (case current_meta st of None \<Rightarrow> [] | Some m \<Rightarrow> categorize m)"

definition current_specs :: "app \<Rightarrow> OptionSpec list" where
  "current_specs st = concat (map snd (categorize_current st))"

definition output_get :: "app \<Rightarrow> string" where
  "output_get st = output_text st @ [CHR 0x0A]"

section \<open>Argument builder\<close>

datatype py_error = AttributeError

text \<open>The arguments of one value row: lines 586 to 596 of \<^verbatim>\<open>_build_args\<close>.\<close>

definition value_args :: "OptionSpec \<Rightarrow> string \<Rightarrow> string list" where
  "value_args spec v =
     (let val = strip v
      in if val \<noteq> [] then
           (if is_positional spec then [val]
            else if multiple spec \<and> CHR '','' \<in> set val then
              concat (map (\<lambda>p. [display_name spec, p])
                        (filter (\<lambda>p. p \<noteq> []) (map strip (split_comma val))))
            else [display_name spec, val])
         else [])"

text \<open>
  A flag spec reads \<^verbatim>\<open>wd.get("flag").get()\<close> and any other spec
  \<^verbatim>\<open>wd.get("value").get()\<close>; on a row of the other shape the lookup yields
  \<^verbatim>\<open>None\<close> and the call raises.
\<close>

definition row_args :: "OptionSpec \<Rightarrow> row \<Rightarrow> py_error + string list" where
  "row_args spec wd =
     (if is_flag spec then
        (case wd of
           FlagRow b \<Rightarrow> Inr (if b then [display_name spec] else [])
         | ValueRow _ \<Rightarrow> Inl AttributeError)
      else
        (case wd of
           ValueRow v \<Rightarrow> Inr (value_args spec v)
         | FlagRow _ \<Rightarrow> Inl AttributeError))"

fun selected_args :: "(OptionSpec \<times> row) list \<Rightarrow> py_error + string list" where
  "selected_args [] = Inr []"
| "selected_args ((spec, wd) # rest) =
     (case row_args spec wd of
        Inl e \<Rightarrow> Inl e
      | Inr a \<Rightarrow> (case selected_args rest of Inl e \<Rightarrow> Inl e | Inr b \<Rightarrow> Inr (a @ b)))"

definition override_args :: "app \<Rightarrow> string list" where
  "override_args st =
     (if strip (cwd_var st) \<noteq> [] then [''-C'', strip (cwd_var st)] else [])
     @ (if strip (db_var st) \<noteq> [] then [''--db'', strip (db_var st)] else [])
     @ (if strip (linkly_var st) \<noteq> [] then [''-L'', strip (linkly_var st)] else [])"

text \<open>\<^verbatim>\<open>["-v"] * n\<close> is the empty list for a negative \<open>n\<close>.\<close>

definition counter_args :: "app \<Rightarrow> string list" where
  "counter_args st =
     replicate (nat (detail_var st)) ''-v''
     @ replicate (nat (quiet_var st)) ''-q''
     @ replicate (nat (debug_var st)) ''-w''"

definition build_args :: "app \<Rightarrow> py_error + string list" where
  "build_args st =
     (case current_meta st of
        None \<Rightarrow> Inr []
      | Some m \<Rightarrow>
          (let parts =
                 (case fixed_args m of
                    None \<Rightarrow> [name m]
                  | Some fa \<Rightarrow> if fa \<noteq> [] then fa else [name m])
           in case selected_args (selected st) of
                Inl e \<Rightarrow> Inl e
              | Inr opts \<Rightarrow> Inr (parts @ opts @ override_args st @ counter_args st)))"

section \<open>Saving preferences\<close>

text \<open>
  The body shared by \<^verbatim>\<open>_save_prefs\<close> and \<^verbatim>\<open>_save_state_for_label\<close>: for one spec,
  \<^verbatim>\<open>rec = options.setdefault(key, {})\<close> and then \<^verbatim>\<open>selected\<close> and \<^verbatim>\<open>flag\<close> or
  \<^verbatim>\<open>value\<close> are stored. A spec without a row, or with a row of the other shape, stores
  \<^verbatim>\<open>False\<close> or the empty string.
\<close>

definition save_spec :: "app \<Rightarrow> (string \<rightharpoonup> opt_rec) \<Rightarrow> OptionSpec \<Rightarrow> (string \<rightharpoonup> opt_rec)" where
  "save_spec st options spec =
     (let sel = (case map_of (widget_vars st) spec of None \<Rightarrow> False | Some b \<Rightarrow> b);
          rec = (case options (key spec) of None \<Rightarrow> empty_rec | Some r \<Rightarrow> r);
          rec1 = rec\<lparr>r_selected := Some sel\<rparr>;
          rec2 =
            (if is_flag spec then
               rec1\<lparr>r_flag := Some (case map_of (selected st) spec of
                                       Some (FlagRow b) \<Rightarrow> b | _ \<Rightarrow> False)\<rparr>
             else
               rec1\<lparr>r_value := Some (case map_of (selected st) spec of
                                        Some (ValueRow v) \<Rightarrow> v | _ \<Rightarrow> [])\<rparr>)
      in options(key spec \<mapsto> rec2))"

definition save_cmd_state :: "app \<Rightarrow> string \<Rightarrow> prefs_doc \<Rightarrow> prefs_doc" where
  "save_cmd_state st label data =
     (let cs = (case p_commands data label of None \<Rightarrow> empty_cmd_state | Some c \<Rightarrow> c);
          options = foldl (save_spec st) (cs_options cs) (current_specs st);
          cs1 = cs\<lparr>cs_options := options, cs_output := Some (output_get st)\<rparr>
      in data\<lparr>p_commands := (p_commands data)(label \<mapsto> cs1)\<rparr>)"

text \<open>
  \<^verbatim>\<open>_save_prefs\<close>: nothing while saving is suspended; otherwise the previous document
  is taken, the globals are overwritten, the state of the current command is stored
  under the label in \<open>cmd_var\<close>, and the document is kept and written out. (A failing
  write is swallowed by the source; the model writes.)
\<close>

definition save_prefs :: "app \<Rightarrow> app" where
  "save_prefs st =
     (if suspend_save st then st
      else
        (let data = (prefs st)
               \<lparr>p_cwd := Some (strip (cwd_var st)),
                p_db := Some (strip (db_var st)),
                p_linkly := Some (strip (linkly_var st)),
                p_detail := Some (detail_var st),
                p_quiet := Some (quiet_var st),
                p_debug := Some (debug_var st),
                p_selected_command := Some (cmd_var st)\<rparr>;
             data1 = (case current_meta st of
                        None \<Rightarrow> data
                      | Some _ \<Rightarrow> save_cmd_state st (cmd_var st) data)
         in st\<lparr>prefs := data1, disk := Stored data1\<rparr>))"

definition save_state_for_label :: "app \<Rightarrow> string \<Rightarrow> app" where
  "save_state_for_label st label =
     (if suspend_save st then st
      else if label = [] \<or> current_meta st = None then st
      else (let data = save_cmd_state st label (prefs st)
            in st\<lparr>prefs := data, disk := Stored data\<rparr>))"

section \<open>Selection: rows and toggles\<close>

text \<open>
  \<^verbatim>\<open>_ensure_selected_row\<close>: a spec that has a row keeps it; otherwise a row is added at
  the end, a flag row set to true or a value row holding the default text.
\<close>

definition ensure_selected_row :: "app \<Rightarrow> OptionSpec \<Rightarrow> app" where
  "ensure_selected_row st spec =
     (case map_of (selected st) spec of
        Some _ \<Rightarrow> st
      | None \<Rightarrow>
          st\<lparr>selected := selected st @
                [(spec, if is_flag spec then FlagRow True
                        else ValueRow (case default_text spec of None \<Rightarrow> [] | Some t \<Rightarrow> t))]\<rparr>)"

text \<open>
  \<^verbatim>\<open>_remove_selected_row\<close>: without a row nothing happens; otherwise the row is popped
  (the rows behind it move up) and the preferences are saved.
\<close>

definition remove_selected_row :: "app \<Rightarrow> OptionSpec \<Rightarrow> app" where
  "remove_selected_row st spec =
     (case map_of (selected st) spec of
        None \<Rightarrow> st
      | Some _ \<Rightarrow> save_prefs (st\<lparr>selected := AList.delete spec (selected st)\<rparr>))"

text \<open>
  Writing a Tk variable runs its write traces at once. The trace of a selector variable
  is \<^verbatim>\<open>(self._on_toggle_option(s, v.get()), self._save_prefs())\<close>. Inside
  \<^verbatim>\<open>_on_toggle_option\<close> the variables of the other group members are set to false, and
  each of these writes re-enters \<^verbatim>\<open>_on_toggle_option\<close> with \<^verbatim>\<open>selected\<close> false
  ("row will be removed in recursive call"), where nothing is left to do but to remove
  the row; the trace then saves. \<open>unselect_other\<close> is that inner write.
\<close>

definition unselect_other :: "app \<Rightarrow> OptionSpec \<Rightarrow> app" where
  "unselect_other st other =
     save_prefs
       (remove_selected_row (st\<lparr>widget_vars := AList.update other False (widget_vars st)\<rparr>) other)"

definition exclude_other :: "OptionSpec \<Rightarrow> app \<Rightarrow> OptionSpec \<Rightarrow> app" where
  "exclude_other spec st other =
     (if other = spec then st
      else if group_id other = group_id spec then
        (case map_of (widget_vars st) other of
           Some True \<Rightarrow> unselect_other st other
         | _ \<Rightarrow> st)
      else st)"

definition on_toggle_option :: "app \<Rightarrow> OptionSpec \<Rightarrow> bool \<Rightarrow> app" where
  "on_toggle_option st spec sel =
     (let st1 = (if sel \<and> group_id spec \<noteq> None
                 then foldl (exclude_other spec) st (map fst (widget_vars st))
                 else st)
      in if sel then ensure_selected_row st1 spec else remove_selected_row st1 spec)"

text \<open>
  \<open>toggle\<close> is \<^verbatim>\<open>sel_var.set(v)\<close> on the selector variable of a spec, by a click on its
  checkbutton or from the program: the variable is written and its trace runs. A spec
  without a selector variable has nothing to write.
\<close>

definition toggle :: "app \<Rightarrow> OptionSpec \<Rightarrow> bool \<Rightarrow> app" where
  "toggle st spec v =
     (case map_of (widget_vars st) spec of
        None \<Rightarrow> st
      | Some _ \<Rightarrow>
          save_prefs
            (on_toggle_option (st\<lparr>widget_vars := AList.update spec v (widget_vars st)\<rparr>) spec v))"

text \<open>
  Editing a row writes its variable; the trace of a row variable refreshes the preview
  and saves. A row of the other shape has no such variable.
\<close>

definition edit_value :: "app \<Rightarrow> OptionSpec \<Rightarrow> string \<Rightarrow> app" where
  "edit_value st spec v =
     (case map_of (selected st) spec of
        Some (ValueRow _) \<Rightarrow> save_prefs (st\<lparr>selected := AList.update spec (ValueRow v) (selected st)\<rparr>)
      | _ \<Rightarrow> st)"

definition edit_flag :: "app \<Rightarrow> OptionSpec \<Rightarrow> bool \<Rightarrow> app" where
  "edit_flag st spec b =
     (case map_of (selected st) spec of
        Some (FlagRow _) \<Rightarrow> save_prefs (st\<lparr>selected := AList.update spec (FlagRow b) (selected st)\<rparr>)
      | _ \<Rightarrow> st)"

section \<open>Restoring a command\<close>

text \<open>
  \<^verbatim>\<open>_apply_saved_state_for_current\<close> fetches \<^verbatim>\<open>options\<close> once, but what it fetches is
  the dictionary object inside \<^verbatim>\<open>self._prefs\<close>, and \<^verbatim>\<open>_save_prefs\<close> (which copies
  only the top level, \<^verbatim>\<open>dict(self._prefs)\<close>) updates that same object in place. Every
  later look at \<^verbatim>\<open>options\<close>, at an \<^verbatim>\<open>opt\<close> taken from it and at \<^verbatim>\<open>state\<close>
  therefore sees what the document holds at that moment: the model reads the current
  document each time. (When the document has no entry for the command, the fetched
  dictionaries are fresh and empty, no spec is touched, no trace runs, and the two
  readings agree as well.)
\<close>

definition saved_state :: "app \<Rightarrow> cmd_state option" where
  "saved_state st = p_commands (prefs st) (cmd_var st)"

definition saved_opt :: "app \<Rightarrow> OptionSpec \<Rightarrow> opt_rec option" where
  "saved_opt st spec =
     (case saved_state st of None \<Rightarrow> None | Some cs \<Rightarrow> cs_options cs (key spec))"

text \<open>
  The body of the loop for one spec. \<^verbatim>\<open>if not opt: continue\<close> skips a missing and an
  empty record. The selector variable is written (its trace runs), and for a selected
  spec the row is made sure of and its variable written with \<^verbatim>\<open>opt\<close>'s flag (true when
  absent) or, when \<^verbatim>\<open>opt\<close> has one, its value.
\<close>

definition apply_saved_spec :: "CommandMeta \<Rightarrow> app \<Rightarrow> OptionSpec \<Rightarrow> app" where
  "apply_saved_spec m st spec =
     (case saved_opt st spec of
        None \<Rightarrow> st
      | Some opt \<Rightarrow>
          if opt = empty_rec then st
          else
            (let is_required = (spec \<in> set (arguments m));
                 target_sel = (if is_required then True
                               else (case r_selected opt of None \<Rightarrow> False | Some b \<Rightarrow> b));
                 st1 = toggle st spec target_sel
             in if target_sel then
                  (let st2 = ensure_selected_row st1 spec
                   in case saved_opt st2 spec of
                        None \<Rightarrow> st2
                      | Some opt2 \<Rightarrow>
                          if is_flag spec then
                            edit_flag st2 spec (case r_flag opt2 of None \<Rightarrow> True | Some b \<Rightarrow> b)
                          else
                            (case r_value opt2 of None \<Rightarrow> st2 | Some v \<Rightarrow> edit_value st2 spec v))
                else st1))"

text \<open>After the loop the saved output, if there is one, replaces the text of the output widget.\<close>

definition apply_saved_state_for_current :: "app \<Rightarrow> app" where
  "apply_saved_state_for_current st =
     (case current_meta st of
        None \<Rightarrow> st
      | Some m \<Rightarrow>
          (let st1 = foldl (apply_saved_spec m) st (current_specs st)
           in case saved_state st1 of
                None \<Rightarrow> st1
              | Some cs \<Rightarrow>
                  (case cs_output cs of None \<Rightarrow> st1 | Some out \<Rightarrow> st1\<lparr>output_text := out\<rparr>)))"

section \<open>Switching commands\<close>

text \<open>
  The selector loop of \<^verbatim>\<open>_on_command_change\<close> for one spec: the selector variable starts
  as "is required" (the trace is attached afterwards), and a required spec gets its row
  at once.
\<close>

definition add_selector :: "CommandMeta \<Rightarrow> app \<Rightarrow> OptionSpec \<Rightarrow> app" where
  "add_selector m st spec =
     (let is_required = (spec \<in> set (arguments m));
          st1 = st\<lparr>widget_vars := AList.update spec is_required (widget_vars st)\<rparr>
      in if is_required then ensure_selected_row st1 spec else st1)"

definition on_command_change :: "app \<Rightarrow> app" where
  "on_command_change st =
     (let st0 = (case current_cmd_label st of
                   None \<Rightarrow> st
                 | Some prev_label \<Rightarrow>
                     if prev_label \<noteq> [] \<and> current_meta st \<noteq> None
                     then save_state_for_label st prev_label else st);
          nm = cmd_var st0;
          st1 = st0\<lparr>current_meta := map_of (cmd_metas st0) nm, widget_vars := [], selected := []\<rparr>
      in case current_meta st1 of
           None \<Rightarrow> st1
         | Some m \<Rightarrow>
             (let st2 = foldl (add_selector m) st1 (current_specs st1);
                  st3 = apply_saved_state_for_current st2;
                  st4 = save_prefs st3
              in st4\<lparr>current_cmd_label := Some nm\<rparr>))"

text \<open>Choosing a command in the combobox sets \<open>cmd_var\<close> and raises the event.\<close>

definition select_command :: "app \<Rightarrow> string \<Rightarrow> app" where
  "select_command st label = on_command_change (st\<lparr>cmd_var := label\<rparr>)"

section \<open>Loading preferences and starting up\<close>

text \<open>
  The global variables carry write traces that save the preferences (the string ones
  refresh the preview first).
\<close>

definition set_cwd :: "app \<Rightarrow> string \<Rightarrow> app" where
  "set_cwd st v = save_prefs (st\<lparr>cwd_var := v\<rparr>)"

definition set_db :: "app \<Rightarrow> string \<Rightarrow> app" where
  "set_db st v = save_prefs (st\<lparr>db_var := v\<rparr>)"

definition set_linkly :: "app \<Rightarrow> string \<Rightarrow> app" where
  "set_linkly st v = save_prefs (st\<lparr>linkly_var := v\<rparr>)"

definition set_detail :: "app \<Rightarrow> int \<Rightarrow> app" where
  "set_detail st n = save_prefs (st\<lparr>detail_var := n\<rparr>)"

definition set_quiet :: "app \<Rightarrow> int \<Rightarrow> app" where
  "set_quiet st n = save_prefs (st\<lparr>quiet_var := n\<rparr>)"

definition set_debug :: "app \<Rightarrow> int \<Rightarrow> app" where
  "set_debug st n = save_prefs (st\<lparr>debug_var := n\<rparr>)"

text \<open>
  \<^verbatim>\<open>_load_prefs\<close>: without a file nothing happens; a file that cannot be read as a JSON
  object leaves an empty document; otherwise the document is kept, all entries are read
  from it, and each global that has the right type is written to its variable.
\<close>

definition load_prefs :: "app \<Rightarrow> app" where
  "load_prefs st =
     (case disk st of
        NoFile \<Rightarrow> st
      | Unreadable \<Rightarrow> st\<lparr>prefs := empty_prefs\<rparr>
      | Stored d \<Rightarrow>
          (let st0 = st\<lparr>prefs := d, restore_cmd := p_selected_command d\<rparr>;
               st1 = (case p_cwd d of None \<Rightarrow> st0 | Some v \<Rightarrow> set_cwd st0 v);
               st2 = (case p_db d of None \<Rightarrow> st1 | Some v \<Rightarrow> set_db st1 v);
               st3 = (case p_linkly d of None \<Rightarrow> st2 | Some v \<Rightarrow> set_linkly st2 v);
               st4 = (case p_detail d of None \<Rightarrow> st3 | Some n \<Rightarrow> set_detail st3 n);
               st5 = (case p_quiet d of None \<Rightarrow> st4 | Some n \<Rightarrow> set_quiet st4 n)
           in case p_debug d of None \<Rightarrow> st5 | Some n \<Rightarrow> set_debug st5 n))"

text \<open>
  \<^verbatim>\<open>__init__\<close>, as far as the engine goes: saving is suspended, the variables hold
  their initial values, the preferences are loaded, the restored command (or else the
  first label in sorted order) is switched to and its saved state applied once more;
  then saving is allowed and one save is made.
\<close>

definition initial_app :: "(string \<times> CommandMeta) list \<Rightarrow> disk_file \<Rightarrow> app" where
  "initial_app metas d =
     \<lparr>cwd_var = [], db_var = [], linkly_var = [], detail_var = 0, quiet_var = 0,
      debug_var = 0, cmd_var = [], cmd_metas = metas, current_meta = None,
      current_cmd_label = None, widget_vars = [], selected = [], output_text = [],
      prefs = empty_prefs, restore_cmd = None, suspend_save = True, disk = d\<rparr>"

definition startup :: "(string \<times> CommandMeta) list \<Rightarrow> disk_file \<Rightarrow> app" where
  "startup metas d =
     (let st1 = load_prefs (initial_app metas d);
          st2 = (case sort (map fst metas) of
                   [] \<Rightarrow> st1
                 | first_cmd # _ \<Rightarrow>
                     (let label = (case restore_cmd st1 of
                                     None \<Rightarrow> first_cmd
                                   | Some r \<Rightarrow> if map_of metas r \<noteq> None then r else first_cmd)
                      in apply_saved_state_for_current (select_command st1 label)));
          st3 = st2\<lparr>suspend_save := False\<rparr>
      in save_prefs st3)"

text \<open>
  \<^verbatim>\<open>_reset_defaults\<close>: the file is removed, the document emptied, the globals are
  written with their defaults (each write saves), and the first command in sorted order
  is switched to.
\<close>

definition reset_defaults :: "app \<Rightarrow> app" where
  "reset_defaults st =
     (let st1 = st\<lparr>disk := NoFile, prefs := empty_prefs, restore_cmd := None\<rparr>;
          st2 = set_debug (set_quiet (set_detail (set_linkly (set_db (set_cwd st1 []) []) []) 0) 0) 0;
          st3 = (case sort (map fst (cmd_metas st2)) of
                   [] \<Rightarrow> st2
                 | first_cmd # _ \<Rightarrow> select_command st2 first_cmd)
      in save_prefs st3)"

section \<open>Invariants and example inputs\<close>

text \<open>
  A row is made by \<^verbatim>\<open>_ensure_selected_row\<close> in the shape its spec asks for, and the
  shape never changes afterwards.
\<close>

definition row_fits :: "OptionSpec \<Rightarrow> row \<Rightarrow> bool" where
  "row_fits spec wd = (case wd of FlagRow _ \<Rightarrow> is_flag spec | ValueRow _ \<Rightarrow> \<not> is_flag spec)"

definition rows_fit :: "(OptionSpec \<times> row) list \<Rightarrow> bool" where
  "rows_fit rows = list_all (\<lambda>(spec, wd). row_fits spec wd) rows"

text \<open>
  A small catalog to run the engine on: a command with one positional, a valued switch,
  an append switch, a flag and two switches of one mutually exclusive group; and the
  convenience entry.
\<close>

definition near_spec :: OptionSpec where
  "near_spec = \<lparr>ident = 1, first_arg = ''near'', more_args = [], kw_dest = None,
     kw_action = None, default_text = None, group_id = None\<rparr>"

definition ly_spec :: OptionSpec where
  "ly_spec = \<lparr>ident = 2, first_arg = ''--ly'', more_args = [], kw_dest = Some ''maxLyPer'',
     kw_action = None, default_text = None, group_id = None\<rparr>"

definition avoid_spec :: OptionSpec where
  "avoid_spec = \<lparr>ident = 3, first_arg = ''--avoid'', more_args = [], kw_dest = None,
     kw_action = Some ''append'', default_text = None, group_id = None\<rparr>"

definition stations_spec :: OptionSpec where
  "stations_spec = \<lparr>ident = 4, first_arg = ''--stations'', more_args = [], kw_dest = None,
     kw_action = Some ''store_true'', default_text = None, group_id = None\<rparr>"

definition planetary_spec :: OptionSpec where
  "planetary_spec = \<lparr>ident = 5, first_arg = ''--planetary'', more_args = [], kw_dest = None,
     kw_action = None, default_text = None, group_id = Some 7\<rparr>"

definition no_planet_spec :: OptionSpec where
  "no_planet_spec = \<lparr>ident = 6, first_arg = ''--no-planet'', more_args = [], kw_dest = Some ''noPlanet'',
     kw_action = Some ''store_true'', default_text = None, group_id = Some 7\<rparr>"

definition local_cmd :: CommandMeta where
  "local_cmd = \<lparr>name = ''local'', arguments = [near_spec],
     switches = [ly_spec, avoid_spec, stations_spec, planetary_spec, no_planet_spec],
     fixed_args = None\<rparr>"

definition example_metas :: "(string \<times> CommandMeta) list" where
  "example_metas = [(''local'', local_cmd), (''Update/Rebuild DB'', update_rebuild_db)]"

text \<open>
  The state of the selection as the claims speak of it: a spec is selected when its
  selector variable is true, and it has a value entry when it has a row.
\<close>

definition is_selected :: "app \<Rightarrow> OptionSpec \<Rightarrow> bool" where
  "is_selected st spec = (map_of (widget_vars st) spec = Some True)"

definition has_row :: "app \<Rightarrow> OptionSpec \<Rightarrow> bool" where
  "has_row st spec = (map_of (selected st) spec \<noteq> None)"

text \<open>Every spec with a row is selected.\<close>

definition rows_selected :: "app \<Rightarrow> bool" where
  "rows_selected st = list_all (\<lambda>(spec, wd). is_selected st spec) (selected st)"

text \<open>No two different selected specs carry the same group.\<close>

definition exclusive :: "app \<Rightarrow> bool" where
  "exclusive st =
     (let shown = map fst (widget_vars st)
      in list_all (\<lambda>a. list_all (\<lambda>b.
           is_selected st a \<and> is_selected st b \<and> group_id a \<noteq> None \<and> group_id a = group_id b
             \<longrightarrow> a = b) shown) shown)"

text \<open>
  What the user can do. A click on a checkbutton of the selector flips its variable; the
  checkbuttons of the required specs are disabled. The rows are edited, and a command is
  chosen in the combobox.
\<close>

definition click :: "app \<Rightarrow> OptionSpec \<Rightarrow> app" where
  "click st spec =
     (case current_meta st of
        None \<Rightarrow> st
      | Some m \<Rightarrow>
          if spec \<in> set (arguments m) then st
          else (case map_of (widget_vars st) spec of
                  None \<Rightarrow> st
                | Some b \<Rightarrow> toggle st spec (\<not> b)))"

datatype event =
    Click OptionSpec
  | EditValue OptionSpec string
  | EditFlag OptionSpec bool
  | SelectCommand string

fun step :: "app \<Rightarrow> event \<Rightarrow> app" where
  "step st (Click spec) = click st spec"
| "step st (EditValue spec v) = edit_value st spec v"
| "step st (EditFlag spec b) = edit_flag st spec b"
| "step st (SelectCommand label) = select_command st label"

definition run_events :: "app \<Rightarrow> event list \<Rightarrow> app" where
  "run_events st evs = foldl step st evs"

text \<open>
  The required specs of the current command that belong to no group are selected and
  have a row.
\<close>

definition required_shown :: "app \<Rightarrow> bool" where
  "required_shown st =
     (case current_meta st of
        None \<Rightarrow> True
      | Some m \<Rightarrow>
          list_all (\<lambda>p. group_id p = None \<longrightarrow> is_selected st p \<and> has_row st p) (arguments m))"

text \<open>No two different required specs of a command carry the same group.\<close>

definition groups_apart :: "CommandMeta \<Rightarrow> bool" where
  "groups_apart m =
     list_all (\<lambda>a. list_all (\<lambda>b. group_id a \<noteq> None \<and> group_id a = group_id b \<longrightarrow> a = b)
                 (arguments m)) (arguments m)"

definition catalog_apart :: "(string \<times> CommandMeta) list \<Rightarrow> bool" where
  "catalog_apart metas = list_all (\<lambda>(label, m). groups_apart m) metas"

text \<open>
  A session on the example catalog: start without a preferences file, choose "local",
  fill in the positional, select and fill in two switches.
\<close>

definition session_a :: app where
  "session_a =
     run_events (startup example_metas NoFile)
       [SelectCommand ''local'', EditValue near_spec ''Sol'', Click ly_spec,
        EditValue ly_spec ''12'', Click planetary_spec, EditValue planetary_spec ''YN'']"

text \<open>
  A command whose two required specs belong to one group, and a text with colour
  sequences, a leading blank line and no marker line.
\<close>

definition east_spec :: OptionSpec where
  "east_spec = \<lparr>ident = 11, first_arg = ''east'', more_args = [], kw_dest = None,
     kw_action = None, default_text = None, group_id = Some 9\<rparr>"

definition west_spec :: OptionSpec where
  "west_spec = \<lparr>ident = 12, first_arg = ''west'', more_args = [], kw_dest = None,
     kw_action = None, default_text = None, group_id = Some 9\<rparr>"

definition pair_cmd :: CommandMeta where
  "pair_cmd = \<lparr>name = ''pair'', arguments = [east_spec, west_spec], switches = [],
     fixed_args = None\<rparr>"

definition pair_metas :: "(string \<times> CommandMeta) list" where
  "pair_metas = [(''pair'', pair_cmd)]"

definition marked_text :: string where
  "marked_text = [CHR 0x0A, CHR 0x1B] @ ''[1mab'' @ [CHR 0x1B] @ ''[0m'' @ [CHR 0x0A, CHR 0x0A] @ ''cd ''
                 @ [CHR 0x0A]"

section \<open>The preferences file across a session\<close>

text \<open>What a file holds for a command.\<close>

definition stored_cmd :: "disk_file \<Rightarrow> string \<Rightarrow> cmd_state option" where
  "stored_cmd f y = (case f of Stored d \<Rightarrow> p_commands d y | _ \<Rightarrow> None)"

text \<open>
  What every toggle, edit and save leaves alone: the current command and its label, the
  suspension of saving, the counters, the entry of every command other than the
  current one, and the agreement of the file with the document in memory.
\<close>

definition keeps :: "string \<Rightarrow> app \<Rightarrow> app \<Rightarrow> bool" where
  "keeps y st st' =
     (cmd_var st' = cmd_var st \<and> suspend_save st' = suspend_save st
      \<and> current_cmd_label st' = current_cmd_label st
      \<and> detail_var st' = detail_var st \<and> quiet_var st' = quiet_var st
      \<and> debug_var st' = debug_var st
      \<and> (cmd_var st \<noteq> y \<longrightarrow> p_commands (prefs st') y = p_commands (prefs st) y)
      \<and> (disk st = Stored (prefs st) \<longrightarrow> disk st' = Stored (prefs st')))"

text \<open>What a session keeps of a command that is never the current one.\<close>

definition apart :: "string \<Rightarrow> cmd_state option \<Rightarrow> app \<Rightarrow> bool" where
  "apart y e st =
     (cmd_var st \<noteq> y \<and> current_cmd_label st \<noteq> Some y \<and> \<not> suspend_save st
      \<and> disk st = Stored (prefs st) \<and> p_commands (prefs st) y = e)"





definition session_b :: app where
  "session_b = run_events session_a [SelectCommand ''Update/Rebuild DB'']"

definition session_c :: app where
  "session_c = run_events (startup example_metas (disk session_b)) [SelectCommand ''local'']"

definition saved_doc :: prefs_doc where
  "saved_doc = empty_prefs\<lparr>p_selected_command := Some ''local'',
     p_commands := [''Update/Rebuild DB'' \<mapsto>
                      \<lparr>cs_options = Map.empty, cs_output = Some ''done''\<rparr>]\<rparr>"

text \<open>
  The selection state of a command as it is on screen (the selected specs, the rows
  and the text of the output pane) and as a file holds it for the given keys.
\<close>

definition selection_state :: "app \<Rightarrow> OptionSpec list \<times> (OptionSpec \<times> row) list \<times> string" where
  "selection_state st = (map fst (filter snd (widget_vars st)), selected st, output_text st)"

definition stored_state :: "disk_file \<Rightarrow> string \<Rightarrow> string list
    \<Rightarrow> (opt_rec option list \<times> string option) option" where
  "stored_state f y ks =
     (case stored_cmd f y of
        None \<Rightarrow> None
      | Some cs \<Rightarrow> Some (map (cs_options cs) ks, cs_output cs))"

section \<open>Properties of the output record parser\<close>

lemma dropWhile_all_iff: "(\<forall>x\<in>set (dropWhile P s). P x) \<longleftrightarrow> (\<forall>x\<in>set s. P x)"
  by (induction s) auto

lemma strip_Nil_iff: "strip s = [] \<longleftrightarrow> (\<forall>c\<in>set s. isspace c)"
  by (simp add: strip_def dropWhile_eq_Nil_conv dropWhile_all_iff)

lemma join_lines_first: "set first \<subseteq> set (join_lines (first # others))"
  by (cases others) auto

text \<open>
  Without a marker line no block is ever closed inside the loop: leading blank lines are
  skipped and everything from the first non-blank line on is accumulated.
\<close>

lemma parse_lines_no_marker:
  "\<forall>ln\<in>set lns. \<not> start_pat_match ln \<Longrightarrow>
   parse_lines lns routes current =
     (routes, if current \<noteq> [] then current @ lns else dropWhile (\<lambda>l. strip l = []) lns)"
  by (induction lns arbitrary: current) auto

lemma close_block_nonblank:
  "strip first \<noteq> [] \<Longrightarrow>
   close_block (first # others) routes =
     routes @ [\<lparr>block = strip (join_lines (first # others)), dest = dest_of first\<rparr>]"
  using join_lines_first [of first others] by (auto simp: strip_Nil_iff Let_def)

lemma dest_of_no_match: "\<not> start_pat_match ln \<Longrightarrow> dest_of ln = []"
  by (simp add: start_pat_match_def dest_of_def)

lemma parse_routes_no_marker:
  assumes "\<forall>ln\<in>set (splitlines (strip_ansi text)). \<not> start_pat_match ln"
  shows "parse_routes text =
     (case dropWhile (\<lambda>l. strip l = []) (splitlines (strip_ansi text)) of
        [] \<Rightarrow> []
      | first # others \<Rightarrow> [\<lparr>block = strip (join_lines (first # others)), dest = []\<rparr>])"
proof -
  define L where "L = splitlines (strip_ansi text)"
  have pl: "parse_lines L [] [] = ([], dropWhile (\<lambda>l. strip l = []) L)"
    using assms by (simp add: parse_lines_no_marker L_def)
  have pr: "parse_routes text =
      (let current = dropWhile (\<lambda>l. strip l = []) L
       in if current \<noteq> [] then close_block current [] else [])"
    by (simp add: parse_routes_def L_def [symmetric] pl)
  show ?thesis
  proof (cases "dropWhile (\<lambda>l. strip l = []) L")
    case Nil
    have "parse_routes text = []"
      unfolding pr Nil by simp
    then show ?thesis unfolding L_def [symmetric] Nil by simp
  next
    case (Cons first others)
    have nb: "strip first \<noteq> []"
      using hd_dropWhile [of "\<lambda>l. strip l = []" L] Cons by simp
    have "first \<in> set L"
      using set_dropWhileD [of first "\<lambda>l. strip l = []" L] Cons by simp
    with assms have d: "dest_of first = []"
      by (simp add: dest_of_no_match L_def)
    have "parse_routes text = [\<lparr>block = strip (join_lines (first # others)), dest = []\<rparr>]"
      unfolding pr Cons
      using close_block_nonblank [OF nb, of others "[]"] d by simp
    then show ?thesis unfolding L_def [symmetric] Cons by simp
  qed
qed

lemma hello_lines: "splitlines (strip_ansi ''hello'') = [''hello'']"
  by (simp add: is_linebreak_def)

lemma hello_no_match: "\<not> start_pat_match ''hello''"
  by (simp add: start_pat_match_def after_arrow_def isspace_def)

lemma hello_strip: "strip ''hello'' = ''hello''"
  by (simp add: strip_def isspace_def)

text \<open>
  C1, as the source has it. The lines meant are those of the text after the colour
  sequences are removed. When none of them matches the start pattern, the parser
  returns no record exactly when all of them are blank (so the empty text yields none);
  otherwise it returns one single record: its block is the text from the first
  non-blank line to the last line, the lines joined by line breaks and the whole
  trimmed, and its destination is empty.
\<close>

theorem parse_routes_without_marker:
  assumes "\<forall>ln\<in>set (splitlines (strip_ansi text)). \<not> start_pat_match ln"
  shows "parse_routes text =
           (case dropWhile (\<lambda>l. strip l = []) (splitlines (strip_ansi text)) of
              [] \<Rightarrow> []
            | first # others \<Rightarrow> [\<lparr>block = strip (join_lines (first # others)), dest = []\<rparr>])
       \<and> (parse_routes text = [] \<longleftrightarrow> (\<forall>ln\<in>set (splitlines (strip_ansi text)). strip ln = []))
       \<and> length (parse_routes text) \<le> 1
       \<and> (\<forall>r\<in>set (parse_routes text). dest r = [])"
proof (cases "dropWhile (\<lambda>l. strip l = []) (splitlines (strip_ansi text))")
  case Nil
  have "parse_routes text = []"
    unfolding parse_routes_no_marker [OF assms] Nil by simp
  moreover from Nil have "\<forall>ln\<in>set (splitlines (strip_ansi text)). strip ln = []"
    by simp
  ultimately show ?thesis unfolding Nil by simp
next
  case (Cons first others)
  have "parse_routes text = [\<lparr>block = strip (join_lines (first # others)), dest = []\<rparr>]"
    unfolding parse_routes_no_marker [OF assms] Cons by simp
  moreover have "\<not> (\<forall>ln\<in>set (splitlines (strip_ansi text)). strip ln = [])"
    using Cons dropWhile_eq_Nil_conv [of "\<lambda>l. strip l = []" "splitlines (strip_ansi text)"]
    by simp
  ultimately show ?thesis unfolding Cons by simp
qed

lemma marked_lines: "splitlines (strip_ansi marked_text) = [[], ''ab'', [], ''cd '']"
  by code_simp

lemma marked_no_match:
  "\<not> start_pat_match []" "\<not> start_pat_match ''ab''" "\<not> start_pat_match ''cd ''"
  by code_simp+

lemma marked_block:
  "(case dropWhile (\<lambda>l. strip l = []) [[], ''ab'', [], ''cd ''] of
      [] \<Rightarrow> []
    | first # others \<Rightarrow> [\<lparr>block = strip (join_lines (first # others)), dest = []\<rparr>])
   = [\<lparr>block = ''ab'' @ [CHR 0x0A, CHR 0x0A] @ ''cd'', dest = []\<rparr>]"
  by code_simp

theorem parse_routes_without_marker_witness:
  "parse_routes [] = []
   \<and> splitlines (strip_ansi marked_text) = [[], ''ab'', [], ''cd '']
   \<and> \<not> start_pat_match [] \<and> \<not> start_pat_match ''ab'' \<and> \<not> start_pat_match ''cd ''
   \<and> parse_routes marked_text = [\<lparr>block = ''ab'' @ [CHR 0x0A, CHR 0x0A] @ ''cd'', dest = []\<rparr>]"
proof -
  have e: "\<forall>ln\<in>set (splitlines (strip_ansi [])). \<not> start_pat_match ln"
    by simp
  have h: "\<forall>ln\<in>set (splitlines (strip_ansi marked_text)). \<not> start_pat_match ln"
    unfolding marked_lines using marked_no_match by simp
  from parse_routes_without_marker [OF e] have a: "parse_routes [] = []"
    by simp
  from parse_routes_without_marker [OF h]
  have "parse_routes marked_text =
           (case dropWhile (\<lambda>l. strip l = []) (splitlines (strip_ansi marked_text)) of
              [] \<Rightarrow> []
            | first # others \<Rightarrow> [\<lparr>block = strip (join_lines (first # others)), dest = []\<rparr>])"
    by blast
  then have b: "parse_routes marked_text
      = [\<lparr>block = ''ab'' @ [CHR 0x0A, CHR 0x0A] @ ''cd'', dest = []\<rparr>]"
    unfolding marked_lines marked_block .
  from a b marked_lines marked_no_match show ?thesis
    by blast
qed


text \<open>
  C1 as stated fails: the only line of the text "hello" is no marker line, and the parser
  returns a record for it.
\<close>

theorem parse_routes_nonempty_counterexample:
  "splitlines (strip_ansi ''hello'') = [''hello''] \<and> \<not> start_pat_match ''hello''
   \<and> parse_routes ''hello'' = [\<lparr>block = ''hello'', dest = []\<rparr>]"
proof -
  have pl: "parse_lines [''hello''] [] [] = ([], [''hello''])"
    by (simp add: hello_no_match hello_strip)
  have "dest_of ''hello'' = []"
    by (simp add: dest_of_no_match hello_no_match)
  then have "parse_routes ''hello'' = [\<lparr>block = ''hello'', dest = []\<rparr>]"
    by (simp add: parse_routes_def hello_lines pl hello_strip del: strip_ansi.simps)
  with hello_lines hello_no_match show ?thesis by blast
qed

section \<open>Properties of the argument builder\<close>

lemma row_args_fits: "row_fits spec wd \<Longrightarrow> \<exists>a. row_args spec wd = Inr a"
  by (cases wd) (auto simp: row_fits_def row_args_def)

text \<open>On rows of the right shape the loop over the selected options does not fail.\<close>

lemma selected_args_fit: "rows_fit rows \<Longrightarrow> \<exists>opts. selected_args rows = Inr opts"
proof (induction rows)
  case Nil
  then show ?case by simp
next
  case (Cons p rows)
  obtain spec wd where p: "p = (spec, wd)" by (cases p)
  from Cons.prems p have "row_fits spec wd" and "rows_fit rows"
    by (simp_all add: rows_fit_def)
  with Cons.IH row_args_fits [of spec wd] p show ?case by auto
qed

lemma strip_samples:
  "strip ''a, b ,c'' = ''a, b ,c''" "strip '' b '' = ''b''" "strip ''a'' = ''a''"
  "strip ''c'' = ''c''" "strip ''  '' = []" "strip '' /data '' = ''/data''" "strip [] = []"
  by (simp_all add: strip_def isspace_def)

lemma avoid_spec_facts:
  "multiple avoid_spec" "\<not> is_positional avoid_spec" "\<not> is_flag avoid_spec"
  "long_flag avoid_spec = ''--avoid''"
  by (simp_all add: multiple_def is_positional_def is_flag_def long_flag_def args_def
      avoid_spec_def)

text \<open>
  C7, as the source has it. Whatever is selected, there is one tail (the per-spec
  arguments and the globals) such that for every command the vector is a start followed
  by that tail, and the start is the fixed argument list when the command has a
  non-empty one and the single token \<open>name\<close> otherwise: always one of these two starts.
  So the vector begins with the fixed arguments when they are set, and with the name
  when they are not. As prefixes the two do not exclude each other: with a non-empty
  fixed argument list the vector begins with the name as well exactly when the list
  itself begins with the name.
\<close>

theorem build_args_begins:
  assumes "rows_fit (selected st)"
  shows "\<exists>tail. \<forall>m. \<exists>v.
           build_args (st\<lparr>current_meta := Some m\<rparr>) = Inr v
           \<and> v = (case fixed_args m of
                    None \<Rightarrow> [name m]
                  | Some fa \<Rightarrow> if fa = [] then [name m] else fa) @ tail
           \<and> (\<forall>fa. fixed_args m = Some fa \<longrightarrow> prefix fa v)
           \<and> (fixed_args m = None \<longrightarrow> prefix [name m] v)
           \<and> (\<forall>fa. fixed_args m = Some fa \<and> fa \<noteq> [] \<longrightarrow>
                 (prefix [name m] v \<longleftrightarrow> hd fa = name m))"
proof -
  from selected_args_fit [OF assms] obtain opts where o: "selected_args (selected st) = Inr opts" ..
  have h: "\<And>fa t n. fa \<noteq> [] \<Longrightarrow> prefix [n] (fa @ t) \<longleftrightarrow> hd fa = (n::string)"
  proof -
    fix fa :: "string list" and t n
    assume "fa \<noteq> []"
    then obtain x xs where "fa = x # xs" by (cases fa) auto
    then show "prefix [n] (fa @ t) \<longleftrightarrow> hd fa = n" by auto
  qed
  have "\<forall>m. \<exists>v.
           build_args (st\<lparr>current_meta := Some m\<rparr>) = Inr v
           \<and> v = (case fixed_args m of
                    None \<Rightarrow> [name m]
                  | Some fa \<Rightarrow> if fa = [] then [name m] else fa)
                 @ (opts @ override_args st @ counter_args st)
           \<and> (\<forall>fa. fixed_args m = Some fa \<longrightarrow> prefix fa v)
           \<and> (fixed_args m = None \<longrightarrow> prefix [name m] v)
           \<and> (\<forall>fa. fixed_args m = Some fa \<and> fa \<noteq> [] \<longrightarrow>
                 (prefix [name m] v \<longleftrightarrow> hd fa = name m))"
    by (simp add: build_args_def o override_args_def counter_args_def h split: option.split)
  then show ?thesis by blast
qed

theorem build_args_begins_witness:
  "rows_fit [(avoid_spec, ValueRow ''a'')]
   \<and> (\<exists>tail.
        build_args ((initial_app [] NoFile)
                      \<lparr>selected := [(avoid_spec, ValueRow ''a'')],
                       current_meta := Some update_rebuild_db\<rparr>)
          = Inr ([''import'', ''-P'', ''eddblink'', ''-O'', ''clean,all,skipvend,force''] @ tail)
        \<and> build_args ((initial_app [] NoFile)
                        \<lparr>selected := [(avoid_spec, ValueRow ''a'')],
                         current_meta := Some local_cmd\<rparr>)
          = Inr ([''local''] @ tail))"
proof -
  let ?st = "(initial_app [] NoFile)\<lparr>selected := [(avoid_spec, ValueRow ''a'')]\<rparr>"
  have f: "rows_fit (selected ?st)"
    by (simp add: rows_fit_def row_fits_def avoid_spec_facts)
  from build_args_begins [OF f] obtain tail where
    t: "\<forall>m. \<exists>v. build_args (?st\<lparr>current_meta := Some m\<rparr>) = Inr v
          \<and> v = (case fixed_args m of
                   None \<Rightarrow> [name m]
                 | Some fa \<Rightarrow> if fa = [] then [name m] else fa) @ tail
          \<and> (\<forall>fa. fixed_args m = Some fa \<longrightarrow> prefix fa v)
          \<and> (fixed_args m = None \<longrightarrow> prefix [name m] v)
          \<and> (\<forall>fa. fixed_args m = Some fa \<and> fa \<noteq> [] \<longrightarrow>
                 (prefix [name m] v \<longleftrightarrow> hd fa = name m))"
    by blast
  from t [rule_format, of update_rebuild_db] t [rule_format, of local_cmd] f
  show ?thesis
    by (auto simp: update_rebuild_db_def local_cmd_def)
qed

text \<open>
  C7 as stated fails in "never both": the entry "Update/Rebuild DB" of the catalog has
  the name \<^verbatim>\<open>import\<close> and fixed arguments that begin with \<^verbatim>\<open>import\<close>, so its vector
  begins with the fixed arguments and with the name.
\<close>

theorem build_args_both_counterexample:
  "name update_rebuild_db = ''import''
   \<and> fixed_args update_rebuild_db
       = Some [''import'', ''-P'', ''eddblink'', ''-O'', ''clean,all,skipvend,force'']
   \<and> build_args ((initial_app [] NoFile)\<lparr>current_meta := Some update_rebuild_db\<rparr>)
       = Inr [''import'', ''-P'', ''eddblink'', ''-O'', ''clean,all,skipvend,force'']
   \<and> prefix [''import'', ''-P'', ''eddblink'', ''-O'', ''clean,all,skipvend,force'']
        [''import'', ''-P'', ''eddblink'', ''-O'', ''clean,all,skipvend,force'']
   \<and> prefix [name update_rebuild_db]
        [''import'', ''-P'', ''eddblink'', ''-O'', ''clean,all,skipvend,force'']"
  by code_simp




text \<open>
  C9. Behind the start and the per-spec arguments the vector ends with the working
  directory, database and link overrides, each a flag and the trimmed value and each
  only when that value is not empty, then the verbosity flag as often as the verbosity
  counter says, then the quiet flag, then the debug flag.
\<close>

theorem build_args_suffix:
  assumes "rows_fit (selected st)" and "current_meta st = Some m"
  shows "\<exists>opts. selected_args (selected st) = Inr opts \<and>
     build_args st =
       Inr ((case fixed_args m of
               None \<Rightarrow> [name m]
             | Some fa \<Rightarrow> if fa = [] then [name m] else fa)
            @ opts
            @ (if strip (cwd_var st) = [] then [] else [''-C'', strip (cwd_var st)])
            @ (if strip (db_var st) = [] then [] else [''--db'', strip (db_var st)])
            @ (if strip (linkly_var st) = [] then [] else [''-L'', strip (linkly_var st)])
            @ replicate (nat (detail_var st)) ''-v''
            @ replicate (nat (quiet_var st)) ''-q''
            @ replicate (nat (debug_var st)) ''-w'')"
proof -
  from selected_args_fit [OF assms(1)] obtain opts where o: "selected_args (selected st) = Inr opts" ..
  then show ?thesis
    using assms(2)
    by (auto simp: build_args_def override_args_def counter_args_def Let_def split: option.split)
qed

theorem build_args_suffix_witness:
  "build_args ((initial_app [] NoFile)
                 \<lparr>selected := [(avoid_spec, ValueRow ''a'')], current_meta := Some local_cmd,
                  cwd_var := '' /data '', detail_var := 2, quiet_var := 0, debug_var := 1\<rparr>)
     = Inr [''local'', ''--avoid'', ''a'', ''-C'', ''/data'', ''-v'', ''-v'', ''-w'']"
proof -
  let ?st = "(initial_app [] NoFile)
                 \<lparr>selected := [(avoid_spec, ValueRow ''a'')], current_meta := Some local_cmd,
                  cwd_var := '' /data '', detail_var := 2, quiet_var := 0, debug_var := 1\<rparr>"
  have f: "rows_fit (selected ?st)"
    by (simp add: rows_fit_def row_fits_def avoid_spec_facts)
  have c: "current_meta ?st = Some local_cmd"
    by simp
  have o: "selected_args (selected ?st) = Inr [''--avoid'', ''a'']"
    by (simp add: row_args_def value_args_def avoid_spec_facts display_name_def strip_samples)
  have r: "replicate 2 ''-v'' = [''-v'', ''-v'']"
    by (simp add: numeral_2_eq_2)
  from build_args_suffix [OF f c] obtain opts where
    a: "selected_args (selected ?st) = Inr opts" and
    b: "build_args ?st =
       Inr ((case fixed_args local_cmd of
               None \<Rightarrow> [name local_cmd]
             | Some fa \<Rightarrow> if fa = [] then [name local_cmd] else fa)
            @ opts
            @ (if strip (cwd_var ?st) = [] then [] else [''-C'', strip (cwd_var ?st)])
            @ (if strip (db_var ?st) = [] then [] else [''--db'', strip (db_var ?st)])
            @ (if strip (linkly_var ?st) = [] then [] else [''-L'', strip (linkly_var ?st)])
            @ replicate (nat (detail_var ?st)) ''-v''
            @ replicate (nat (quiet_var ?st)) ''-q''
            @ replicate (nat (debug_var ?st)) ''-w'')"
    by blast
  from a o have "opts = [''--avoid'', ''a'']"
    by simp
  with b show ?thesis
    by (simp add: initial_app_def local_cmd_def strip_samples r)
qed

section \<open>Properties of toggling\<close>

lemma save_prefs_fields [simp]:
  "widget_vars (save_prefs st) = widget_vars st"
  "selected (save_prefs st) = selected st"
  "cmd_var (save_prefs st) = cmd_var st"
  "current_meta (save_prefs st) = current_meta st"
  "current_cmd_label (save_prefs st) = current_cmd_label st"
  "cmd_metas (save_prefs st) = cmd_metas st"
  "suspend_save (save_prefs st) = suspend_save st"
  "output_text (save_prefs st) = output_text st"
  "restore_cmd (save_prefs st) = restore_cmd st"
  "cwd_var (save_prefs st) = cwd_var st"
  "db_var (save_prefs st) = db_var st"
  "linkly_var (save_prefs st) = linkly_var st"
  "detail_var (save_prefs st) = detail_var st"
  "quiet_var (save_prefs st) = quiet_var st"
  "debug_var (save_prefs st) = debug_var st"
  by (simp_all add: save_prefs_def Let_def)

lemma delete_absent: "map_of al k = None \<Longrightarrow> AList.delete k al = al"
  by (induction al) (auto simp: AList.delete_eq split: if_splits)

lemma remove_selected_row_fields [simp]:
  "widget_vars (remove_selected_row st spec) = widget_vars st"
  "selected (remove_selected_row st spec) = AList.delete spec (selected st)"
  "cmd_var (remove_selected_row st spec) = cmd_var st"
  "current_meta (remove_selected_row st spec) = current_meta st"
  by (simp_all add: remove_selected_row_def delete_absent split: option.split)

lemma ensure_selected_row_fields [simp]:
  "widget_vars (ensure_selected_row st spec) = widget_vars st"
  "cmd_var (ensure_selected_row st spec) = cmd_var st"
  "current_meta (ensure_selected_row st spec) = current_meta st"
  by (simp_all add: ensure_selected_row_def split: option.split)

lemma unselect_other_fields [simp]:
  "widget_vars (unselect_other st other) = AList.update other False (widget_vars st)"
  "selected (unselect_other st other) = AList.delete other (selected st)"
  "cmd_var (unselect_other st other) = cmd_var st"
  "current_meta (unselect_other st other) = current_meta st"
  by (simp_all add: unselect_other_def)

text \<open>
  C10. Deselecting a spec of the selector removes its row and sets its variable to false,
  and changes nothing else of the selection: every other spec keeps its variable and its
  row, and the remaining rows keep their order. No group member is touched, whatever the
  group of the spec.
\<close>

theorem toggle_off_frame:
  assumes "map_of (widget_vars st) spec \<noteq> None"
  shows "widget_vars (toggle st spec False) = AList.update spec False (widget_vars st)
       \<and> selected (toggle st spec False) = filter (\<lambda>(k, wd). k \<noteq> spec) (selected st)
       \<and> map_of (selected (toggle st spec False)) spec = None
       \<and> map_of (widget_vars (toggle st spec False)) spec = Some False
       \<and> (\<forall>other. other \<noteq> spec \<longrightarrow>
            map_of (widget_vars (toggle st spec False)) other = map_of (widget_vars st) other
            \<and> map_of (selected (toggle st spec False)) other = map_of (selected st) other)"
proof -
  have w: "widget_vars (toggle st spec False) = AList.update spec False (widget_vars st)"
    and s: "selected (toggle st spec False) = AList.delete spec (selected st)"
    using assms by (auto simp: toggle_def on_toggle_option_def)
  have f: "AList.delete spec (selected st) = filter (\<lambda>(k, wd). k \<noteq> spec) (selected st)"
    by (auto simp: AList.delete_eq case_prod_beta' intro: filter_cong)
  have a: "selected (toggle st spec False) = filter (\<lambda>(k, wd). k \<noteq> spec) (selected st)"
    using s f by simp
  have b: "map_of (selected (toggle st spec False)) spec = None"
    unfolding s by (simp add: delete_conv')
  have c: "map_of (widget_vars (toggle st spec False)) spec = Some False"
    unfolding w by (simp add: update_conv')
  have d: "\<forall>other. other \<noteq> spec \<longrightarrow>
            map_of (widget_vars (toggle st spec False)) other = map_of (widget_vars st) other
            \<and> map_of (selected (toggle st spec False)) other = map_of (selected st) other"
    unfolding w s by (simp add: update_conv')
  from w a b c d show ?thesis by blast
qed

lemma is_selected_shown: "is_selected st a \<Longrightarrow> a \<in> set (map fst (widget_vars st))"
  by (auto simp: is_selected_def dest: map_of_SomeD intro: rev_image_eqI)

lemma exclusive_iff:
  "exclusive st \<longleftrightarrow>
     (\<forall>a b. is_selected st a \<and> is_selected st b \<and> group_id a \<noteq> None \<and> group_id a = group_id b
        \<longrightarrow> a = b)"
  unfolding exclusive_def Let_def list_all_iff
  using is_selected_shown [of st] by blast

lemma exclude_other_vars:
  "map_of (widget_vars (exclude_other spec st other)) =
     (if other \<noteq> spec \<and> group_id other = group_id spec \<and> map_of (widget_vars st) other = Some True
      then (map_of (widget_vars st))(other \<mapsto> False) else map_of (widget_vars st))"
  by (auto simp: exclude_other_def update_conv' split: option.split bool.split)

lemma fold_exclude_vars:
  "map_of (widget_vars (foldl (exclude_other spec) st ks)) other =
     (if other \<in> set ks \<and> other \<noteq> spec \<and> group_id other = group_id spec
         \<and> map_of (widget_vars st) other = Some True
      then Some False else map_of (widget_vars st) other)"
proof (induction ks arbitrary: st)
  case Nil
  then show ?case by simp
next
  case (Cons k ks)
  show ?case
    by (simp add: Cons.IH exclude_other_vars)
qed

lemma exclude_other_keys:
  "map fst (widget_vars (exclude_other spec st other)) = map fst (widget_vars st)"
  by (auto simp: exclude_other_def update_keys dest: map_of_SomeD intro: rev_image_eqI
      split: option.split bool.split)

lemma rows_selected_iff:
  "rows_selected st \<longleftrightarrow> (\<forall>spec. has_row st spec \<longrightarrow> is_selected st spec)"
proof
  assume r: "rows_selected st"
  show "\<forall>spec. has_row st spec \<longrightarrow> is_selected st spec"
  proof (intro allI impI)
    fix spec assume "has_row st spec"
    then obtain wd where "map_of (selected st) spec = Some wd"
      by (auto simp: has_row_def)
    then have "(spec, wd) \<in> set (selected st)" by (rule map_of_SomeD)
    with r show "is_selected st spec"
      by (auto simp: rows_selected_def list_all_iff)
  qed
next
  assume a: "\<forall>spec. has_row st spec \<longrightarrow> is_selected st spec"
  show "rows_selected st"
    unfolding rows_selected_def list_all_iff
  proof
    fix p assume p: "p \<in> set (selected st)"
    then have "fst p \<in> fst ` set (selected st)" by simp
    then have "map_of (selected st) (fst p) \<noteq> None"
      by (simp add: map_of_eq_None_iff)
    with a have "is_selected st (fst p)" by (simp add: has_row_def)
    then show "case p of (spec, wd) \<Rightarrow> is_selected st spec" by (cases p) simp
  qed
qed

lemma exclude_other_rows:
  "map_of (selected (exclude_other spec st other)) =
     (if other \<noteq> spec \<and> group_id other = group_id spec \<and> map_of (widget_vars st) other = Some True
      then (map_of (selected st))(other := None) else map_of (selected st))"
  by (auto simp: exclude_other_def delete_conv' split: option.split bool.split)

lemma fold_exclude_rows:
  "map_of (selected (foldl (exclude_other spec) st ks)) other =
     (if other \<in> set ks \<and> other \<noteq> spec \<and> group_id other = group_id spec
         \<and> map_of (widget_vars st) other = Some True
      then None else map_of (selected st) other)"
proof (induction ks arbitrary: st)
  case Nil
  then show ?case by simp
next
  case (Cons k ks)
  show ?case
    by (auto simp: Cons.IH exclude_other_vars exclude_other_rows)
qed

lemma shown_if_var: "map_of al k = Some v \<Longrightarrow> k \<in> set (map fst al)"
  by (auto dest: map_of_SomeD intro: rev_image_eqI)

lemma is_selected_save_prefs [simp]: "is_selected (save_prefs st) = is_selected st"
  by (simp add: is_selected_def fun_eq_iff)

lemma has_row_save_prefs [simp]: "has_row (save_prefs st) = has_row st"
  by (simp add: has_row_def fun_eq_iff)

lemma is_selected_ensure [simp]: "is_selected (ensure_selected_row st spec) = is_selected st"
  by (simp add: is_selected_def fun_eq_iff)

lemma has_row_ensure:
  "has_row (ensure_selected_row st spec) other \<longleftrightarrow> other = spec \<or> has_row st other"
  by (auto simp: has_row_def ensure_selected_row_def map_add_def split: option.split)

lemma is_selected_fold_exclude:
  "is_selected (foldl (exclude_other spec) st ks) other \<longleftrightarrow>
     is_selected st other
     \<and> \<not> (other \<in> set ks \<and> other \<noteq> spec \<and> group_id other = group_id spec)"
  by (auto simp: is_selected_def fold_exclude_vars)

lemma has_row_fold_exclude:
  "has_row (foldl (exclude_other spec) st ks) other \<longleftrightarrow>
     has_row st other
     \<and> \<not> (other \<in> set ks \<and> other \<noteq> spec \<and> group_id other = group_id spec
          \<and> is_selected st other)"
  by (auto simp: has_row_def is_selected_def fold_exclude_rows)

lemma is_selected_write:
  "is_selected (st\<lparr>widget_vars := AList.update spec v (widget_vars st)\<rparr>) other \<longleftrightarrow>
     (if other = spec then v else is_selected st other)"
  by (simp add: is_selected_def update_conv')

lemma has_row_write [simp]:
  "has_row (st\<lparr>widget_vars := w\<rparr>) = has_row st"
  by (simp add: has_row_def fun_eq_iff)

lemma toggle_on_selected:
  assumes "map_of (widget_vars st) spec \<noteq> None"
  shows "is_selected (toggle st spec True) other \<longleftrightarrow>
     other = spec \<or>
     (is_selected st other \<and> \<not> (group_id spec \<noteq> None \<and> group_id other = group_id spec))"
proof -
  let ?st1 = "st\<lparr>widget_vars := AList.update spec True (widget_vars st)\<rparr>"
  have sh: "is_selected ?st1 other \<Longrightarrow> other \<in> set (map fst (widget_vars ?st1))"
    by (rule is_selected_shown)
  show ?thesis
  proof (cases "group_id spec \<noteq> None")
    case True
    with assms have "toggle st spec True =
        save_prefs (ensure_selected_row
          (foldl (exclude_other spec) ?st1 (map fst (widget_vars ?st1))) spec)"
      by (auto simp: toggle_def on_toggle_option_def)
    then show ?thesis
      using sh True by (auto simp: is_selected_fold_exclude is_selected_write)
  next
    case False
    with assms have "toggle st spec True = save_prefs (ensure_selected_row ?st1 spec)"
      by (auto simp: toggle_def on_toggle_option_def)
    then show ?thesis
      using False by (auto simp: is_selected_write)
  qed
qed

lemma toggle_on_rows:
  assumes "map_of (widget_vars st) spec \<noteq> None"
  shows "has_row (toggle st spec True) other \<longleftrightarrow>
     other = spec \<or>
     (has_row st other \<and>
      \<not> (group_id spec \<noteq> None \<and> group_id other = group_id spec \<and> is_selected st other))"
proof -
  let ?st1 = "st\<lparr>widget_vars := AList.update spec True (widget_vars st)\<rparr>"
  have sh: "is_selected ?st1 other \<Longrightarrow> other \<in> set (map fst (widget_vars ?st1))"
    by (rule is_selected_shown)
  show ?thesis
  proof (cases "group_id spec \<noteq> None")
    case True
    with assms have "toggle st spec True =
        save_prefs (ensure_selected_row
          (foldl (exclude_other spec) ?st1 (map fst (widget_vars ?st1))) spec)"
      by (auto simp: toggle_def on_toggle_option_def)
    then show ?thesis
      using sh True by (auto simp: has_row_ensure has_row_fold_exclude is_selected_write)
  next
    case False
    with assms have "toggle st spec True = save_prefs (ensure_selected_row ?st1 spec)"
      by (auto simp: toggle_def on_toggle_option_def)
    then show ?thesis
      using False by (auto simp: has_row_ensure)
  qed
qed

lemma toggle_off_selected:
  assumes "map_of (widget_vars st) spec \<noteq> None"
  shows "is_selected (toggle st spec False) other \<longleftrightarrow> other \<noteq> spec \<and> is_selected st other"
    and "has_row (toggle st spec False) other \<longleftrightarrow> other \<noteq> spec \<and> has_row st other"
  using assms
  by (auto simp: toggle_def on_toggle_option_def is_selected_def has_row_def update_conv'
      delete_conv' split: if_splits)

lemma toggle_no_var: "map_of (widget_vars st) spec = None \<Longrightarrow> toggle st spec v = st"
  by (simp add: toggle_def)

lemma toggle_exclusive: "exclusive st \<Longrightarrow> exclusive (toggle st spec v)"
proof (cases "map_of (widget_vars st) spec = None")
  case True
  assume "exclusive st"
  with True show ?thesis by (simp add: toggle_no_var)
next
  case False
  assume e: "exclusive st"
  show ?thesis
  proof (cases v)
    case True
    with e False show ?thesis
      unfolding exclusive_iff by (auto simp: toggle_on_selected)
  next
    case f: False
    with e False show ?thesis
      unfolding exclusive_iff by (auto simp: toggle_off_selected)
  qed
qed

lemma toggle_rows_selected: "rows_selected st \<Longrightarrow> rows_selected (toggle st spec v)"
proof (cases "map_of (widget_vars st) spec = None")
  case True
  assume "rows_selected st"
  with True show ?thesis by (simp add: toggle_no_var)
next
  case False
  assume e: "rows_selected st"
  show ?thesis
  proof (cases v)
    case True
    with e False show ?thesis
      unfolding rows_selected_iff by (auto simp: toggle_on_selected toggle_on_rows)
  next
    case f: False
    with e False show ?thesis
      unfolding rows_selected_iff by (auto simp: toggle_off_selected)
  qed
qed

lemma foldl_invariant:
  "P st \<Longrightarrow> (\<And>s x. x \<in> set xs \<Longrightarrow> P s \<Longrightarrow> P (f s x)) \<Longrightarrow> P (foldl f st xs)"
  by (induction xs arbitrary: st) auto

lemma update_present: "map_of al k \<noteq> None \<Longrightarrow> map_of (AList.update k v al) k' \<noteq> None \<longleftrightarrow> map_of al k' \<noteq> None"
  by (simp add: update_conv')

lemma edit_value_sel [simp]:
  "is_selected (edit_value st spec v) = is_selected st"
  "has_row (edit_value st spec v) = has_row st"
  "widget_vars (edit_value st spec v) = widget_vars st"
  "current_meta (edit_value st spec v) = current_meta st"
  "cmd_var (edit_value st spec v) = cmd_var st"
  by (auto simp: edit_value_def is_selected_def has_row_def fun_eq_iff update_conv'
      split: option.split row.split)

lemma edit_flag_sel [simp]:
  "is_selected (edit_flag st spec v) = is_selected st"
  "has_row (edit_flag st spec v) = has_row st"
  "widget_vars (edit_flag st spec v) = widget_vars st"
  "current_meta (edit_flag st spec v) = current_meta st"
  "cmd_var (edit_flag st spec v) = cmd_var st"
  by (auto simp: edit_flag_def is_selected_def has_row_def fun_eq_iff update_conv'
      split: option.split row.split)

lemma fold_exclude_fields:
  "current_meta (foldl (exclude_other spec) s ks) = current_meta s"
  "cmd_var (foldl (exclude_other spec) s ks) = cmd_var s"
  "map fst (widget_vars (foldl (exclude_other spec) s ks)) = map fst (widget_vars s)"
proof -
  show "current_meta (foldl (exclude_other spec) s ks) = current_meta s"
    by (rule foldl_invariant [where P = "\<lambda>x. current_meta x = current_meta s"])
       (auto simp: exclude_other_def split: option.split bool.split)
  show "cmd_var (foldl (exclude_other spec) s ks) = cmd_var s"
    by (rule foldl_invariant [where P = "\<lambda>x. cmd_var x = cmd_var s"])
       (auto simp: exclude_other_def split: option.split bool.split)
  show "map fst (widget_vars (foldl (exclude_other spec) s ks)) = map fst (widget_vars s)"
    by (rule foldl_invariant [where P = "\<lambda>x. map fst (widget_vars x) = map fst (widget_vars s)"])
       (auto simp: exclude_other_keys)
qed

lemma toggle_fields [simp]:
  "current_meta (toggle st spec v) = current_meta st"
  "cmd_var (toggle st spec v) = cmd_var st"
  by (auto simp: toggle_def on_toggle_option_def Let_def fold_exclude_fields split: option.split)

lemma toggle_keys [simp]:
  "map fst (widget_vars (toggle st spec v)) = map fst (widget_vars st)"
proof (cases "map_of (widget_vars st) spec = None")
  case True
  then show ?thesis by (simp add: toggle_no_var)
next
  case False
  then have k: "spec \<in> set (map fst (widget_vars st))"
    by (simp add: map_of_eq_None_iff)
  then have u: "\<And>b. map fst (AList.update spec b (widget_vars st)) = map fst (widget_vars st)"
    by (simp add: update_keys)
  from False show ?thesis
    by (auto simp: toggle_def on_toggle_option_def Let_def fold_exclude_fields u
        split: option.split)
qed

lemma exclusive_cong:
  "is_selected st' = is_selected st \<Longrightarrow> exclusive st' = exclusive st"
  by (simp add: exclusive_iff)

lemma rows_selected_cong:
  "is_selected st' = is_selected st \<Longrightarrow> has_row st' = has_row st \<Longrightarrow>
   rows_selected st' = rows_selected st"
  by (simp add: rows_selected_iff)

section \<open>Properties of restoring and of reachable states\<close>

lemma ensure_row_present:
  "has_row st spec \<Longrightarrow> ensure_selected_row st spec = st"
  by (auto simp: has_row_def ensure_selected_row_def)

lemma toggle_on_self:
  "map_of (widget_vars st) spec \<noteq> None \<Longrightarrow>
   is_selected (toggle st spec True) spec \<and> has_row (toggle st spec True) spec"
  by (simp add: toggle_on_selected toggle_on_rows)

text \<open>What restoring one spec can do to the selection.\<close>

lemma apply_saved_spec_cases:
  assumes "map_of (widget_vars st) spec \<noteq> None"
  shows "(is_selected (apply_saved_spec m st spec) = is_selected st
            \<and> has_row (apply_saved_spec m st spec) = has_row st)
       \<or> (spec \<notin> set (arguments m)
            \<and> is_selected (apply_saved_spec m st spec) = is_selected (toggle st spec False)
            \<and> has_row (apply_saved_spec m st spec) = has_row (toggle st spec False))
       \<or> (is_selected (apply_saved_spec m st spec) = is_selected (toggle st spec True)
            \<and> has_row (apply_saved_spec m st spec) = has_row (toggle st spec True))"
proof -
  have e: "ensure_selected_row (toggle st spec True) spec = toggle st spec True"
    using toggle_on_self [OF assms] by (simp add: ensure_row_present)
  show ?thesis
    by (auto simp: apply_saved_spec_def Let_def e split: option.split)
qed

lemma apply_saved_spec_fields [simp]:
  "map fst (widget_vars (apply_saved_spec m st spec)) = map fst (widget_vars st)"
  "current_meta (apply_saved_spec m st spec) = current_meta st"
  "cmd_var (apply_saved_spec m st spec) = cmd_var st"
  by (auto simp: apply_saved_spec_def Let_def split: option.split)

lemma add_selector_view:
  "is_selected (add_selector m s spec) other \<longleftrightarrow>
     (if other = spec then spec \<in> set (arguments m) else is_selected s other)"
  "has_row (add_selector m s spec) other \<longleftrightarrow>
     (other = spec \<and> spec \<in> set (arguments m)) \<or> has_row s other"
  "fst ` set (widget_vars (add_selector m s spec)) = insert spec (fst ` set (widget_vars s))"
  "current_meta (add_selector m s spec) = current_meta s"
  "cmd_var (add_selector m s spec) = cmd_var s"
  by (auto simp: add_selector_def Let_def is_selected_def has_row_ensure update_conv' dom_update
      has_row_def [of "s\<lparr>widget_vars := w\<rparr>" for w] has_row_def [of s])

lemma build_view:
  "is_selected (foldl (add_selector m) s xs) other \<longleftrightarrow>
     (if other \<in> set xs then other \<in> set (arguments m) else is_selected s other)"
  "has_row (foldl (add_selector m) s xs) other \<longleftrightarrow>
     (other \<in> set xs \<and> other \<in> set (arguments m)) \<or> has_row s other"
  "fst ` set (widget_vars (foldl (add_selector m) s xs)) = set xs \<union> fst ` set (widget_vars s)"
  "current_meta (foldl (add_selector m) s xs) = current_meta s"
  "cmd_var (foldl (add_selector m) s xs) = cmd_var s"
proof (induction xs arbitrary: s)
  case Nil
  {
    case 1 show ?case by simp
  next
    case 2 show ?case by simp
  next
    case 3 show ?case by simp
  next
    case 4 show ?case by simp
  next
    case 5 show ?case by simp
  }
next
  case (Cons x xs)
  {
    case 1 show ?case by (auto simp: Cons.IH add_selector_view)
  next
    case 2 show ?case by (auto simp: Cons.IH add_selector_view)
  next
    case 3 show ?case by (auto simp: Cons.IH add_selector_view)
  next
    case 4 show ?case by (simp add: Cons.IH add_selector_view)
  next
    case 5 show ?case by (simp add: Cons.IH add_selector_view)
  }
qed

lemma required_cong:
  "is_selected st' = is_selected st \<Longrightarrow> has_row st' = has_row st \<Longrightarrow>
   (\<forall>p\<in>set ps. group_id p = None \<longrightarrow> is_selected st' p \<and> has_row st' p) =
   (\<forall>p\<in>set ps. group_id p = None \<longrightarrow> is_selected st p \<and> has_row st p)"
  by simp

lemma toggle_required:
  assumes "\<forall>p\<in>set ps. group_id p = None \<longrightarrow> is_selected st p \<and> has_row st p"
    and "v \<or> spec \<notin> set ps"
  shows "\<forall>p\<in>set ps. group_id p = None \<longrightarrow>
           is_selected (toggle st spec v) p \<and> has_row (toggle st spec v) p"
proof (cases "map_of (widget_vars st) spec = None")
  case True
  with assms show ?thesis by (simp add: toggle_no_var)
next
  case False
  show ?thesis
  proof (cases v)
    case True
    with assms False show ?thesis
      by (auto simp: toggle_on_selected toggle_on_rows)
  next
    case f: False
    with assms False show ?thesis
      by (auto simp: toggle_off_selected)
  qed
qed

lemma apply_saved_spec_inv:
  assumes v: "map_of (widget_vars s) spec \<noteq> None"
  shows "rows_selected s \<Longrightarrow> rows_selected (apply_saved_spec m s spec)"
    and "exclusive s \<Longrightarrow> exclusive (apply_saved_spec m s spec)"
    and "\<forall>p\<in>set (arguments m). group_id p = None \<longrightarrow> is_selected s p \<and> has_row s p \<Longrightarrow>
         \<forall>p\<in>set (arguments m). group_id p = None \<longrightarrow>
           is_selected (apply_saved_spec m s spec) p \<and> has_row (apply_saved_spec m s spec) p"
proof -
  note c = apply_saved_spec_cases [OF v, of m]
  show "rows_selected s \<Longrightarrow> rows_selected (apply_saved_spec m s spec)"
    using c toggle_rows_selected [of s spec True] toggle_rows_selected [of s spec False]
      rows_selected_cong [of "apply_saved_spec m s spec"]
    by metis
  show "exclusive s \<Longrightarrow> exclusive (apply_saved_spec m s spec)"
    using c toggle_exclusive [of s spec True] toggle_exclusive [of s spec False]
      exclusive_cong [of "apply_saved_spec m s spec"]
    by metis
  assume r: "\<forall>p\<in>set (arguments m). group_id p = None \<longrightarrow> is_selected s p \<and> has_row s p"
  from c show "\<forall>p\<in>set (arguments m). group_id p = None \<longrightarrow>
           is_selected (apply_saved_spec m s spec) p \<and> has_row (apply_saved_spec m s spec) p"
  proof (elim disjE conjE)
    assume "is_selected (apply_saved_spec m s spec) = is_selected s"
      "has_row (apply_saved_spec m s spec) = has_row s"
    with r show ?thesis by simp
  next
    assume "spec \<notin> set (arguments m)"
      "is_selected (apply_saved_spec m s spec) = is_selected (toggle s spec False)"
      "has_row (apply_saved_spec m s spec) = has_row (toggle s spec False)"
    with toggle_required [OF r, of False spec] show ?thesis by simp
  next
    assume "is_selected (apply_saved_spec m s spec) = is_selected (toggle s spec True)"
      "has_row (apply_saved_spec m s spec) = has_row (toggle s spec True)"
    with toggle_required [OF r, of True spec] show ?thesis by simp
  qed
qed

lemma apply_saved_spec_keys [simp]:
  "fst ` set (widget_vars (apply_saved_spec m st spec)) = fst ` set (widget_vars st)"
proof -
  have "set (map fst (widget_vars (apply_saved_spec m st spec))) = set (map fst (widget_vars st))"
    by (simp only: apply_saved_spec_fields)
  then show ?thesis by (simp only: set_map)
qed

lemma shown_has_var: "spec \<in> fst ` set (widget_vars s) \<Longrightarrow> map_of (widget_vars s) spec \<noteq> None"
  by (simp add: map_of_eq_None_iff)

lemma foldl_invariant2:
  "P st \<Longrightarrow> Q st \<Longrightarrow> (\<And>s x. x \<in> set xs \<Longrightarrow> P s \<Longrightarrow> Q s \<Longrightarrow> P (f s x) \<and> Q (f s x)) \<Longrightarrow>
   P (foldl f st xs)"
  using foldl_invariant [where P = "\<lambda>s. P s \<and> Q s" and f = f and st = st and xs = xs]
  by blast

lemma apply_fold_fields:
  "fst ` set (widget_vars (foldl (apply_saved_spec m) s xs)) = fst ` set (widget_vars s)"
  "current_meta (foldl (apply_saved_spec m) s xs) = current_meta s"
  "cmd_var (foldl (apply_saved_spec m) s xs) = cmd_var s"
proof -
  show "fst ` set (widget_vars (foldl (apply_saved_spec m) s xs)) = fst ` set (widget_vars s)"
    by (rule foldl_invariant [where P = "\<lambda>x. fst ` set (widget_vars x) = fst ` set (widget_vars s)"])
       simp_all
  show "current_meta (foldl (apply_saved_spec m) s xs) = current_meta s"
    by (rule foldl_invariant [where P = "\<lambda>x. current_meta x = current_meta s"]) simp_all
  show "cmd_var (foldl (apply_saved_spec m) s xs) = cmd_var s"
    by (rule foldl_invariant [where P = "\<lambda>x. cmd_var x = cmd_var s"]) simp_all
qed

lemma apply_fold_inv:
  assumes k: "set xs \<subseteq> fst ` set (widget_vars s)"
  shows "rows_selected s \<Longrightarrow> rows_selected (foldl (apply_saved_spec m) s xs)"
    and "exclusive s \<Longrightarrow> exclusive (foldl (apply_saved_spec m) s xs)"
    and "\<forall>p\<in>set (arguments m). group_id p = None \<longrightarrow> is_selected s p \<and> has_row s p \<Longrightarrow>
         \<forall>p\<in>set (arguments m). group_id p = None \<longrightarrow>
           is_selected (foldl (apply_saved_spec m) s xs) p
           \<and> has_row (foldl (apply_saved_spec m) s xs) p"
proof -
  let ?K = "\<lambda>x. set xs \<subseteq> fst ` set (widget_vars x)"
  show "rows_selected s \<Longrightarrow> rows_selected (foldl (apply_saved_spec m) s xs)"
    by (rule foldl_invariant2 [where Q = ?K]) (use k in \<open>auto simp: apply_saved_spec_inv shown_has_var subsetD\<close>)
  show "exclusive s \<Longrightarrow> exclusive (foldl (apply_saved_spec m) s xs)"
    by (rule foldl_invariant2 [where Q = ?K]) (use k in \<open>auto simp: apply_saved_spec_inv shown_has_var subsetD\<close>)
  assume r: "\<forall>p\<in>set (arguments m). group_id p = None \<longrightarrow> is_selected s p \<and> has_row s p"
  show "\<forall>p\<in>set (arguments m). group_id p = None \<longrightarrow>
           is_selected (foldl (apply_saved_spec m) s xs) p
           \<and> has_row (foldl (apply_saved_spec m) s xs) p"
  proof (rule foldl_invariant2 [where Q = ?K and
        P = "\<lambda>x. \<forall>p\<in>set (arguments m). group_id p = None \<longrightarrow> is_selected x p \<and> has_row x p"])
    show "\<forall>p\<in>set (arguments m). group_id p = None \<longrightarrow> is_selected s p \<and> has_row s p" by (rule r)
    show "?K s" by (rule k)
    fix x spec
    assume "spec \<in> set xs"
      and a: "\<forall>p\<in>set (arguments m). group_id p = None \<longrightarrow> is_selected x p \<and> has_row x p"
      and "?K x"
    then have v: "map_of (widget_vars x) spec \<noteq> None"
      using shown_has_var [of spec x] by blast
    from apply_saved_spec_inv(3) [OF v a] \<open>?K x\<close>
    show "(\<forall>p\<in>set (arguments m). group_id p = None \<longrightarrow>
             is_selected (apply_saved_spec m x spec) p \<and> has_row (apply_saved_spec m x spec) p)
          \<and> ?K (apply_saved_spec m x spec)"
      by simp
  qed
qed

lemma pick_name_used:
  "set (snd acc) = U \<union> set (fst acc) \<Longrightarrow>
   set (snd (pick_name bd acc n)) = U \<union> set (fst (pick_name bd acc n))"
  by (cases acc) (auto simp: pick_name_def split: option.split)

lemma pick_fold_used:
  "set (snd acc) = U \<union> set (fst acc) \<Longrightarrow>
   set (snd (foldl (pick_name bd) acc ns)) = U \<union> set (fst (foldl (pick_name bd) acc ns))"
  by (rule foldl_invariant [where P = "\<lambda>a. set (snd a) = U \<union> set (fst a)"])
     (auto simp: pick_name_used)

lemma add_section_used:
  assumes "set (snd acc) \<subseteq> set (concat (map snd (fst acc)))"
  shows "set (snd (add_section bd acc sect)) \<subseteq> set (concat (map snd (fst (add_section bd acc sect))))"
proof -
  obtain result used where acc: "acc = (result, used)" by (cases acc)
  obtain title names where sect: "sect = (title, names)" by (cases sect)
  obtain specs used' where f: "foldl (pick_name bd) ([], used) names = (specs, used')"
    by (cases "foldl (pick_name bd) ([], used) names")
  from pick_fold_used [of "([], used)" "set used" bd names] f
  have u: "set used' = set used \<union> set specs" by simp
  from assms acc have "set used \<subseteq> set (concat (map snd result))" by simp
  with u show ?thesis
    by (auto simp: add_section_def acc sect f)
qed

lemma sections_used:
  "set (snd (foldl (add_section bd) ([], []) ss)) \<subseteq>
   set (concat (map snd (fst (foldl (add_section bd) ([], []) ss))))"
  by (rule foldl_invariant [where P = "\<lambda>a. set (snd a) \<subseteq> set (concat (map snd (fst a)))"])
     (auto simp: add_section_used simp del: set_concat)

lemma specs_of_all: "set (arguments m) \<union> set (switches m) \<subseteq> set (specs_of m)"
proof (cases "name m = ''run''")
  case False
  then show ?thesis by (simp add: specs_of_def categorize_def)
next
  case True
  define bd where "bd = foldl add_by_dest Map.empty (arguments m @ switches m)"
  obtain result used where f: "foldl (add_section bd) ([], []) sects = (result, used)"
    by (cases "foldl (add_section bd) ([], []) sects")
  from sections_used [of bd sects] f have u: "set used \<subseteq> set (concat (map snd result))"
    by simp
  have c: "categorize m =
      (let remaining = filter (\<lambda>s. s \<notin> set used) (arguments m @ switches m)
       in if remaining \<noteq> [] then result @ [(''Misc'', remaining)] else result)"
    by (simp only: categorize_def Let_def True refl if_True bd_def [symmetric] f prod.case)
  show ?thesis
  proof
    fix x assume x: "x \<in> set (arguments m) \<union> set (switches m)"
    show "x \<in> set (specs_of m)"
    proof (cases "x \<in> set used")
      case True
      with u have "x \<in> set (concat (map snd result))" by blast
      then show ?thesis
        by (auto simp: specs_of_def c Let_def)
    next
      case False
      with x have r: "x \<in> set (filter (\<lambda>s. s \<notin> set used) (arguments m @ switches m))"
        by auto
      then have "filter (\<lambda>s. s \<notin> set used) (arguments m @ switches m) \<noteq> []"
        by (metis empty_iff empty_set)
      with r show ?thesis
        by (auto simp: specs_of_def c Let_def)
    qed
  qed
qed

lemma view_simps [simp]:
  "is_selected (st\<lparr>current_cmd_label := l\<rparr>) = is_selected st"
  "has_row (st\<lparr>current_cmd_label := l\<rparr>) = has_row st"
  "is_selected (st\<lparr>output_text := t\<rparr>) = is_selected st"
  "has_row (st\<lparr>output_text := t\<rparr>) = has_row st"
  "is_selected (st\<lparr>suspend_save := b\<rparr>) = is_selected st"
  "has_row (st\<lparr>suspend_save := b\<rparr>) = has_row st"
  by (simp_all add: is_selected_def has_row_def fun_eq_iff)

lemma save_state_for_label_fields [simp]:
  "cmd_var (save_state_for_label st l) = cmd_var st"
  "cmd_metas (save_state_for_label st l) = cmd_metas st"
  by (simp_all add: save_state_for_label_def Let_def)

text \<open>The selection after restoring the saved state of the current command.\<close>

lemma apply_saved_state_inv:
  assumes m: "current_meta s = Some m" and k: "set (specs_of m) \<subseteq> fst ` set (widget_vars s)"
  shows "rows_selected s \<Longrightarrow> rows_selected (apply_saved_state_for_current s)"
    and "exclusive s \<Longrightarrow> exclusive (apply_saved_state_for_current s)"
    and "\<forall>p\<in>set (arguments m). group_id p = None \<longrightarrow> is_selected s p \<and> has_row s p \<Longrightarrow>
         \<forall>p\<in>set (arguments m). group_id p = None \<longrightarrow>
           is_selected (apply_saved_state_for_current s) p
           \<and> has_row (apply_saved_state_for_current s) p"
    and "fst ` set (widget_vars (apply_saved_state_for_current s)) = fst ` set (widget_vars s)"
    and "current_meta (apply_saved_state_for_current s) = current_meta s"
    and "cmd_var (apply_saved_state_for_current s) = cmd_var s"
proof -
  let ?f = "foldl (apply_saved_spec m) s (specs_of m)"
  have cs: "current_specs s = specs_of m"
    by (simp add: current_specs_def categorize_current_def m specs_of_def)
  have v: "is_selected (apply_saved_state_for_current s) = is_selected ?f"
    "has_row (apply_saved_state_for_current s) = has_row ?f"
    by (auto simp: apply_saved_state_for_current_def m cs Let_def split: option.split)
  show "rows_selected s \<Longrightarrow> rows_selected (apply_saved_state_for_current s)"
    using apply_fold_inv(1) [OF k, of m] rows_selected_cong [OF v] by simp
  show "exclusive s \<Longrightarrow> exclusive (apply_saved_state_for_current s)"
    using apply_fold_inv(2) [OF k, of m] exclusive_cong [OF v(1)] by simp
  show "\<forall>p\<in>set (arguments m). group_id p = None \<longrightarrow> is_selected s p \<and> has_row s p \<Longrightarrow>
         \<forall>p\<in>set (arguments m). group_id p = None \<longrightarrow>
           is_selected (apply_saved_state_for_current s) p
           \<and> has_row (apply_saved_state_for_current s) p"
    using apply_fold_inv(3) [OF k, of m] v by simp
  show "fst ` set (widget_vars (apply_saved_state_for_current s)) = fst ` set (widget_vars s)"
    by (auto simp: apply_saved_state_for_current_def m cs Let_def apply_fold_fields
        split: option.split)
  show "current_meta (apply_saved_state_for_current s) = current_meta s"
    by (auto simp: apply_saved_state_for_current_def m cs Let_def apply_fold_fields
        split: option.split)
  show "cmd_var (apply_saved_state_for_current s) = cmd_var s"
    by (auto simp: apply_saved_state_for_current_def m cs Let_def apply_fold_fields
        split: option.split)
qed

lemma fresh_view:
  "is_selected (s\<lparr>current_meta := c, widget_vars := [], selected := []\<rparr>) other = False"
  "has_row (s\<lparr>current_meta := c, widget_vars := [], selected := []\<rparr>) other = False"
  by (simp_all add: is_selected_def has_row_def)

text \<open>The selection after a command change.\<close>

lemma on_command_change_none:
  assumes "map_of (cmd_metas st) (cmd_var st) = None"
  shows "current_meta (on_command_change st) = None"
    and "widget_vars (on_command_change st) = []"
    and "selected (on_command_change st) = []"
  using assms by (auto simp: on_command_change_def Let_def split: option.split)

lemma on_command_change_some:
  assumes c: "map_of (cmd_metas st) (cmd_var st) = Some m"
  shows "current_meta (on_command_change st) = Some m"
    and "fst ` set (widget_vars (on_command_change st)) = set (specs_of m)"
    and "rows_selected (on_command_change st)"
    and "groups_apart m \<Longrightarrow> exclusive (on_command_change st)"
    and "\<forall>p\<in>set (arguments m). group_id p = None \<longrightarrow>
           is_selected (on_command_change st) p \<and> has_row (on_command_change st) p"
proof -
  define st0 where "st0 = (case current_cmd_label st of
                   None \<Rightarrow> st
                 | Some prev_label \<Rightarrow>
                     if prev_label \<noteq> [] \<and> current_meta st \<noteq> None
                     then save_state_for_label st prev_label else st)"
  have st0: "cmd_var st0 = cmd_var st" "cmd_metas st0 = cmd_metas st"
    by (simp_all add: st0_def split: option.split)
  define st1 where "st1 = st0\<lparr>current_meta := Some m, widget_vars := [], selected := []\<rparr>"
  define st2 where "st2 = foldl (add_selector m) st1 (specs_of m)"
  have cs: "current_specs st1 = specs_of m"
    by (simp add: current_specs_def categorize_current_def st1_def specs_of_def)
  have occ: "on_command_change st =
      (save_prefs (apply_saved_state_for_current st2))\<lparr>current_cmd_label := Some (cmd_var st)\<rparr>"
    using c st0 cs
    by (simp add: on_command_change_def Let_def st0_def [symmetric] st1_def [symmetric] st2_def)
  have m2: "current_meta st2 = Some m"
    by (simp add: st2_def build_view st1_def)
  have k2: "fst ` set (widget_vars st2) = set (specs_of m)"
    by (simp add: st2_def build_view st1_def)
  then have k: "set (specs_of m) \<subseteq> fst ` set (widget_vars st2)" by simp
  have sel2: "\<And>other. is_selected st2 other \<longleftrightarrow> other \<in> set (specs_of m) \<and> other \<in> set (arguments m)"
    and row2: "\<And>other. has_row st2 other \<longleftrightarrow> other \<in> set (specs_of m) \<and> other \<in> set (arguments m)"
    by (simp_all add: st2_def build_view st1_def fresh_view)
  have r2: "rows_selected st2"
    by (simp add: rows_selected_iff sel2 row2)
  have q2: "\<forall>p\<in>set (arguments m). group_id p = None \<longrightarrow> is_selected st2 p \<and> has_row st2 p"
    using specs_of_all [of m] by (auto simp: sel2 row2)
  show "current_meta (on_command_change st) = Some m"
    by (simp add: occ apply_saved_state_inv(5) [OF m2 k] m2)
  show "fst ` set (widget_vars (on_command_change st)) = set (specs_of m)"
    by (simp add: occ apply_saved_state_inv(4) [OF m2 k] k2)
  have "rows_selected (apply_saved_state_for_current st2)"
    by (rule apply_saved_state_inv(1) [OF m2 k r2])
  then show "rows_selected (on_command_change st)"
    by (simp add: occ rows_selected_iff)
  show "\<forall>p\<in>set (arguments m). group_id p = None \<longrightarrow>
           is_selected (on_command_change st) p \<and> has_row (on_command_change st) p"
    using apply_saved_state_inv(3) [OF m2 k q2] by (simp add: occ)
  assume g: "groups_apart m"
  have "exclusive st2"
    using g unfolding exclusive_iff groups_apart_def list_all_iff by (auto simp: sel2)
  then have "exclusive (apply_saved_state_for_current st2)"
    by (rule apply_saved_state_inv(2) [OF m2 k])
  then show "exclusive (on_command_change st)"
    by (simp add: occ exclusive_iff)
qed

lemma catalog_apartD: "catalog_apart metas \<Longrightarrow> map_of metas l = Some m \<Longrightarrow> groups_apart m"
  by (auto simp: catalog_apart_def list_all_iff dest: map_of_SomeD)

lemma cmd_metas_frame [simp]:
  "cmd_metas (remove_selected_row st spec) = cmd_metas st"
  "cmd_metas (ensure_selected_row st spec) = cmd_metas st"
  "cmd_metas (unselect_other st spec) = cmd_metas st"
  "cmd_metas (exclude_other spec' st spec) = cmd_metas st"
  "cmd_metas (edit_value st spec v) = cmd_metas st"
  "cmd_metas (edit_flag st spec b) = cmd_metas st"
  by (auto simp: remove_selected_row_def ensure_selected_row_def unselect_other_def
      exclude_other_def edit_value_def edit_flag_def split: option.split bool.split row.split)

lemma cmd_metas_toggle [simp]: "cmd_metas (toggle st spec v) = cmd_metas st"
proof -
  have "\<And>s ks. cmd_metas (foldl (exclude_other spec) s ks) = cmd_metas s"
    by (rule foldl_invariant [where P = "\<lambda>x. cmd_metas x = cmd_metas s" for s]) simp_all
  then show ?thesis
    by (auto simp: toggle_def on_toggle_option_def Let_def split: option.split)
qed

lemma cmd_metas_apply_spec [simp]: "cmd_metas (apply_saved_spec m st spec) = cmd_metas st"
  by (auto simp: apply_saved_spec_def Let_def split: option.split)

lemma cmd_metas_apply [simp]: "cmd_metas (apply_saved_state_for_current st) = cmd_metas st"
proof -
  have "\<And>m s xs. cmd_metas (foldl (apply_saved_spec m) s xs) = cmd_metas s"
    by (rule foldl_invariant [where P = "\<lambda>x. cmd_metas x = cmd_metas s" for s]) simp_all
  then show ?thesis
    by (auto simp: apply_saved_state_for_current_def Let_def split: option.split)
qed

lemma cmd_metas_add_selector [simp]: "cmd_metas (add_selector m st spec) = cmd_metas st"
  by (simp add: add_selector_def Let_def)

lemma cmd_metas_on_command_change [simp]: "cmd_metas (on_command_change st) = cmd_metas st"
proof -
  have "\<And>m s xs. cmd_metas (foldl (add_selector m) s xs) = cmd_metas s"
    by (rule foldl_invariant [where P = "\<lambda>x. cmd_metas x = cmd_metas s" for s]) simp_all
  then show ?thesis
    by (auto simp: on_command_change_def Let_def split: option.split)
qed

lemma cmd_metas_step [simp]: "cmd_metas (step st ev) = cmd_metas st"
  by (cases ev) (auto simp: click_def select_command_def split: option.split)

lemma cmd_metas_run [simp]: "cmd_metas (run_events st evs) = cmd_metas st"
  unfolding run_events_def
  by (rule foldl_invariant [where P = "\<lambda>x. cmd_metas x = cmd_metas st"]) simp_all

lemma empty_selection:
  assumes "widget_vars st = []" and "selected st = []"
  shows "rows_selected st" and "exclusive st"
  using assms by (simp_all add: rows_selected_def exclusive_def)

lemma required_shown_iff:
  "required_shown st \<longleftrightarrow>
     (\<forall>m. current_meta st = Some m \<longrightarrow>
        (\<forall>p\<in>set (arguments m). group_id p = None \<longrightarrow> is_selected st p \<and> has_row st p))"
  by (auto simp: required_shown_def list_all_iff split: option.split)

lemma select_command_inv:
  "rows_selected (select_command st l)"
  "required_shown (select_command st l)"
  "catalog_apart (cmd_metas st) \<Longrightarrow> exclusive (select_command st l)"
proof -
  let ?s = "st\<lparr>cmd_var := l\<rparr>"
  show "rows_selected (select_command st l)"
  proof (cases "map_of (cmd_metas ?s) (cmd_var ?s)")
    case None
    then show ?thesis
      unfolding select_command_def
      by (intro empty_selection on_command_change_none)
  next
    case (Some m)
    then show ?thesis
      unfolding select_command_def by (rule on_command_change_some)
  qed
  show "required_shown (select_command st l)"
  proof (cases "map_of (cmd_metas ?s) (cmd_var ?s)")
    case None
    then show ?thesis
      unfolding select_command_def required_shown_iff
      by (simp add: on_command_change_none)
  next
    case (Some m)
    then show ?thesis
      unfolding select_command_def required_shown_iff
      using on_command_change_some(1,5) [OF Some] by simp
  qed
  assume a: "catalog_apart (cmd_metas st)"
  show "exclusive (select_command st l)"
  proof (cases "map_of (cmd_metas ?s) (cmd_var ?s)")
    case None
    then show ?thesis
      unfolding select_command_def
      by (intro empty_selection on_command_change_none)
  next
    case (Some m)
    with a have "groups_apart m"
      by (auto dest: catalog_apartD)
    then show ?thesis
      unfolding select_command_def by (rule on_command_change_some(4) [OF Some])
  qed
qed

lemma click_inv:
  "rows_selected st \<Longrightarrow> rows_selected (click st spec)"
  "exclusive st \<Longrightarrow> exclusive (click st spec)"
  "required_shown st \<Longrightarrow> required_shown (click st spec)"
proof -
  show "rows_selected st \<Longrightarrow> rows_selected (click st spec)"
    by (auto simp: click_def toggle_rows_selected split: option.split)
  show "exclusive st \<Longrightarrow> exclusive (click st spec)"
    by (auto simp: click_def toggle_exclusive split: option.split)
  assume r: "required_shown st"
  show "required_shown (click st spec)"
  proof (cases "current_meta st")
    case None
    then show ?thesis by (simp add: click_def required_shown_def)
  next
    case (Some m)
    with r have q: "\<forall>p\<in>set (arguments m). group_id p = None \<longrightarrow> is_selected st p \<and> has_row st p"
      by (simp add: required_shown_iff)
    show ?thesis
    proof (cases "spec \<in> set (arguments m)")
      case True
      with Some r show ?thesis by (simp add: click_def)
    next
      case False
      then have "\<And>v. \<forall>p\<in>set (arguments m). group_id p = None \<longrightarrow>
                   is_selected (toggle st spec v) p \<and> has_row (toggle st spec v) p"
        using toggle_required [OF q] by blast
      with Some False r show ?thesis
        by (auto simp: click_def required_shown_iff split: option.split)
    qed
  qed
qed

lemma edit_inv [simp]:
  "rows_selected (edit_value st spec v) = rows_selected st"
  "exclusive (edit_value st spec v) = exclusive st"
  "required_shown (edit_value st spec v) = required_shown st"
  "rows_selected (edit_flag st spec b) = rows_selected st"
  "exclusive (edit_flag st spec b) = exclusive st"
  "required_shown (edit_flag st spec b) = required_shown st"
  by (simp_all add: rows_selected_iff exclusive_iff required_shown_iff)

lemma step_inv:
  "rows_selected st \<Longrightarrow> rows_selected (step st ev)"
  "required_shown st \<Longrightarrow> required_shown (step st ev)"
  "catalog_apart (cmd_metas st) \<Longrightarrow> exclusive st \<Longrightarrow> exclusive (step st ev)"
  by (cases ev; simp add: click_inv select_command_inv)+

lemma run_events_inv:
  "rows_selected st \<Longrightarrow> rows_selected (run_events st evs)"
  "required_shown st \<Longrightarrow> required_shown (run_events st evs)"
  "catalog_apart (cmd_metas st) \<Longrightarrow> exclusive st \<Longrightarrow> exclusive (run_events st evs)"
proof -
  show "rows_selected st \<Longrightarrow> rows_selected (run_events st evs)"
    unfolding run_events_def by (rule foldl_invariant) (auto simp: step_inv)
  show "required_shown st \<Longrightarrow> required_shown (run_events st evs)"
    unfolding run_events_def by (rule foldl_invariant) (auto simp: step_inv)
  show "catalog_apart (cmd_metas st) \<Longrightarrow> exclusive st \<Longrightarrow> exclusive (run_events st evs)"
    unfolding run_events_def
    by (rule foldl_invariant2 [where Q = "\<lambda>x. cmd_metas x = cmd_metas st"])
       (auto simp: step_inv)
qed

lemma load_prefs_fields [simp]:
  "widget_vars (load_prefs st) = widget_vars st"
  "selected (load_prefs st) = selected st"
  "current_meta (load_prefs st) = current_meta st"
  "cmd_metas (load_prefs st) = cmd_metas st"
  by (auto simp: load_prefs_def Let_def set_cwd_def set_db_def set_linkly_def set_detail_def
      set_quiet_def set_debug_def split: disk_file.split option.split)

lemma startup_inv:
  "rows_selected (startup metas d)"
  "required_shown (startup metas d)"
  "catalog_apart metas \<Longrightarrow> exclusive (startup metas d)"
  "cmd_metas (startup metas d) = metas"
proof -
  define st1 where "st1 = load_prefs (initial_app metas d)"
  have f1: "widget_vars st1 = []" "selected st1 = []" "current_meta st1 = None"
    "cmd_metas st1 = metas"
    by (simp_all add: st1_def initial_app_def)
  define st2 where "st2 = (case sort (map fst metas) of
                   [] \<Rightarrow> st1
                 | first_cmd # _ \<Rightarrow>
                     (let label = (case restore_cmd st1 of
                                     None \<Rightarrow> first_cmd
                                   | Some r \<Rightarrow> if map_of metas r \<noteq> None then r else first_cmd)
                      in apply_saved_state_for_current (select_command st1 label)))"
  have su: "startup metas d = save_prefs (st2\<lparr>suspend_save := False\<rparr>)"
    by (simp only: startup_def Let_def st1_def st2_def)
  have app: "\<And>l. rows_selected (apply_saved_state_for_current (select_command st1 l))
      \<and> required_shown (apply_saved_state_for_current (select_command st1 l))
      \<and> (catalog_apart metas \<longrightarrow> exclusive (apply_saved_state_for_current (select_command st1 l)))"
  proof -
    fix l
    let ?s = "select_command st1 l"
    show "rows_selected (apply_saved_state_for_current ?s)
      \<and> required_shown (apply_saved_state_for_current ?s)
      \<and> (catalog_apart metas \<longrightarrow> exclusive (apply_saved_state_for_current ?s))"
    proof (cases "map_of (cmd_metas (st1\<lparr>cmd_var := l\<rparr>)) (cmd_var (st1\<lparr>cmd_var := l\<rparr>))")
      case None
      then have "current_meta ?s = None"
        unfolding select_command_def by (rule on_command_change_none)
      then have "apply_saved_state_for_current ?s = ?s"
        by (simp add: apply_saved_state_for_current_def)
      then show ?thesis
        using select_command_inv [of st1 l] f1 by simp
    next
      case (Some m)
      have m: "current_meta ?s = Some m"
        unfolding select_command_def by (rule on_command_change_some(1) [OF Some])
      have k: "set (specs_of m) \<subseteq> fst ` set (widget_vars ?s)"
        unfolding select_command_def using on_command_change_some(2) [OF Some] by simp
      have q: "\<forall>p\<in>set (arguments m). group_id p = None \<longrightarrow> is_selected ?s p \<and> has_row ?s p"
        unfolding select_command_def by (rule on_command_change_some(5) [OF Some])
      have r: "required_shown (apply_saved_state_for_current ?s)"
        using apply_saved_state_inv(3) [OF m k q] apply_saved_state_inv(5) [OF m k] m
        by (simp add: required_shown_iff)
      from apply_saved_state_inv(1) [OF m k] apply_saved_state_inv(2) [OF m k] r
        select_command_inv [of st1 l] f1
      show ?thesis by simp
    qed
  qed
  have st2: "rows_selected st2 \<and> required_shown st2 \<and> (catalog_apart metas \<longrightarrow> exclusive st2)"
  proof (cases "sort (map fst metas)")
    case Nil
    then have "st2 = st1" by (simp add: st2_def)
    with f1 show ?thesis
      by (simp add: empty_selection required_shown_def)
  next
    case (Cons first_cmd rest)
    then have "\<exists>label. st2 = apply_saved_state_for_current (select_command st1 label)"
      by (auto simp: st2_def Let_def)
    with app show ?thesis by blast
  qed
  show "rows_selected (startup metas d)"
    using st2 by (simp add: su rows_selected_iff)
  show "required_shown (startup metas d)"
  proof -
    have "current_meta (startup metas d) = current_meta st2" by (simp add: su)
    with st2 show ?thesis by (simp add: su required_shown_iff)
  qed
  show "catalog_apart metas \<Longrightarrow> exclusive (startup metas d)"
    using st2 exclusive_cong [of "startup metas d" st2] by (simp add: su)
  show "cmd_metas (startup metas d) = metas"
    by (auto simp: su st2_def Let_def f1 select_command_def split: list.split)
qed

lemma session_a_facts:
  "current_meta session_a = Some local_cmd"
  "selected session_a =
     [(near_spec, ValueRow ''Sol''), (ly_spec, ValueRow ''12''), (planetary_spec, ValueRow ''YN'')]"
  "widget_vars session_a =
     [(near_spec, True), (ly_spec, True), (avoid_spec, False), (stations_spec, False),
      (planetary_spec, True), (no_planet_spec, False)]"
  by code_simp+

lemma built_selection:
  "is_selected
     (foldl (add_selector m)
        (s\<lparr>current_meta := Some m, widget_vars := [], selected := []\<rparr>)
        (current_specs (s\<lparr>current_meta := Some m, widget_vars := [], selected := []\<rparr>))) p
     \<longleftrightarrow> p \<in> set (arguments m)"
  "has_row
     (foldl (add_selector m)
        (s\<lparr>current_meta := Some m, widget_vars := [], selected := []\<rparr>)
        (current_specs (s\<lparr>current_meta := Some m, widget_vars := [], selected := []\<rparr>))) p
     \<longleftrightarrow> p \<in> set (arguments m)"
proof -
  have cs: "current_specs (s\<lparr>current_meta := Some m, widget_vars := [], selected := []\<rparr>)
      = specs_of m"
    by (simp add: current_specs_def categorize_current_def specs_of_def)
  show "is_selected
     (foldl (add_selector m)
        (s\<lparr>current_meta := Some m, widget_vars := [], selected := []\<rparr>)
        (current_specs (s\<lparr>current_meta := Some m, widget_vars := [], selected := []\<rparr>))) p
     \<longleftrightarrow> p \<in> set (arguments m)"
    unfolding cs using specs_of_all [of m] by (auto simp: build_view fresh_view)
  show "has_row
     (foldl (add_selector m)
        (s\<lparr>current_meta := Some m, widget_vars := [], selected := []\<rparr>)
        (current_specs (s\<lparr>current_meta := Some m, widget_vars := [], selected := []\<rparr>))) p
     \<longleftrightarrow> p \<in> set (arguments m)"
    unfolding cs using specs_of_all [of m] by (auto simp: build_view fresh_view)
qed

text \<open>
  A required spec that shares its group with another required spec can lose its
  selection and its row when the saved state of the command is applied: the write of
  the selector of the second unselects the first.
\<close>

lemma grouped_required_unselected:
  "arguments pair_cmd = [east_spec, west_spec]
   \<and> widget_vars (run_events (startup pair_metas NoFile) [SelectCommand ''pair''])
       = [(east_spec, False), (west_spec, True)]
   \<and> selected (run_events (startup pair_metas NoFile) [SelectCommand ''pair''])
       = [(west_spec, ValueRow [])]"
  by code_simp

text \<open>
  C3, as the source has it. In every state reached from start-up by choosing commands,
  clicking checkbuttons and editing rows, every spec that has a row (a value entry) is
  selected, and each required spec of the current command that belongs to no group is
  selected and has a row. The positionals are not kept out of the selection: when
  \<^verbatim>\<open>_on_command_change\<close> has built the selectors of a command, and before the saved state
  is applied, the selected specs are exactly the required ones, and exactly they have
  a row.
\<close>

theorem reachable_selection:
  "rows_selected (run_events (startup metas d) evs)
   \<and> required_shown (run_events (startup metas d) evs)
   \<and> (\<forall>p. is_selected
             (foldl (add_selector m)
                (s\<lparr>current_meta := Some m, widget_vars := [], selected := []\<rparr>)
                (current_specs (s\<lparr>current_meta := Some m, widget_vars := [], selected := []\<rparr>))) p
           \<longleftrightarrow> p \<in> set (arguments m))
   \<and> (\<forall>p. has_row
             (foldl (add_selector m)
                (s\<lparr>current_meta := Some m, widget_vars := [], selected := []\<rparr>)
                (current_specs (s\<lparr>current_meta := Some m, widget_vars := [], selected := []\<rparr>))) p
           \<longleftrightarrow> p \<in> set (arguments m))"
  by (simp add: run_events_inv startup_inv built_selection)

theorem reachable_selection_witness:
  "current_meta session_a = Some local_cmd \<and> arguments local_cmd = [near_spec]
   \<and> group_id near_spec = None
   \<and> rows_selected session_a \<and> is_selected session_a near_spec \<and> has_row session_a near_spec"
proof -
  have r: "rows_selected session_a" and q: "required_shown session_a"
    using reachable_selection [of example_metas NoFile
        "[SelectCommand ''local'', EditValue near_spec ''Sol'', Click ly_spec,
          EditValue ly_spec ''12'', Click planetary_spec, EditValue planetary_spec ''YN'']"
        local_cmd "initial_app [] NoFile"]
    by (simp_all add: session_a_def)
  have a: "arguments local_cmd = [near_spec]" and g: "group_id near_spec = None"
    by (simp_all add: local_cmd_def near_spec_def)
  from q session_a_facts(1) a g have "is_selected session_a near_spec \<and> has_row session_a near_spec"
    by (simp add: required_shown_iff)
  with r session_a_facts(1) a g show ?thesis by simp
qed


text \<open>
  C3 as stated fails in its second half: after "local" is chosen, its positional
  \<open>near\<close> is selected and has a row.
\<close>

theorem positional_selected_counterexample:
  "arguments local_cmd = [near_spec] \<and> is_positional near_spec
   \<and> current_meta (run_events (startup example_metas NoFile) [SelectCommand ''local'']) = Some local_cmd
   \<and> is_selected (run_events (startup example_metas NoFile) [SelectCommand ''local'']) near_spec
   \<and> selected (run_events (startup example_metas NoFile) [SelectCommand ''local''])
       = [(near_spec, ValueRow [])]"
  by code_simp

lemma toggles_exclusive:
  "exclusive st \<Longrightarrow> exclusive (foldl (\<lambda>s (spec, v). toggle s spec v) st ops)"
  by (rule foldl_invariant) (auto simp: toggle_exclusive)

lemma exclusion_before_row:
  assumes r: "rows_selected st" and v: "map_of (widget_vars st) spec \<noteq> None"
    and g: "group_id spec \<noteq> None"
  shows "toggle st spec True =
           save_prefs (ensure_selected_row
             (foldl (exclude_other spec) (st\<lparr>widget_vars := AList.update spec True (widget_vars st)\<rparr>)
                (map fst (widget_vars st))) spec)
       \<and> (\<forall>other. other \<noteq> spec \<and> group_id other = group_id spec \<longrightarrow>
            \<not> is_selected
                (foldl (exclude_other spec) (st\<lparr>widget_vars := AList.update spec True (widget_vars st)\<rparr>)
                   (map fst (widget_vars st))) other
            \<and> \<not> has_row
                (foldl (exclude_other spec) (st\<lparr>widget_vars := AList.update spec True (widget_vars st)\<rparr>)
                   (map fst (widget_vars st))) other)"
proof -
  let ?st1 = "st\<lparr>widget_vars := AList.update spec True (widget_vars st)\<rparr>"
  from v have k: "spec \<in> set (map fst (widget_vars st))"
    by (simp add: map_of_eq_None_iff)
  then have u: "map fst (widget_vars ?st1) = map fst (widget_vars st)"
    by (simp add: update_keys)
  have t: "toggle st spec True =
           save_prefs (ensure_selected_row
             (foldl (exclude_other spec) ?st1 (map fst (widget_vars st))) spec)"
    using v g u by (auto simp: toggle_def on_toggle_option_def Let_def)
  have o: "\<forall>other. other \<noteq> spec \<and> group_id other = group_id spec \<longrightarrow>
            \<not> is_selected (foldl (exclude_other spec) ?st1 (map fst (widget_vars st))) other
            \<and> \<not> has_row (foldl (exclude_other spec) ?st1 (map fst (widget_vars st))) other"
  proof (intro allI impI)
    fix other assume a: "other \<noteq> spec \<and> group_id other = group_id spec"
    show "\<not> is_selected (foldl (exclude_other spec) ?st1 (map fst (widget_vars st))) other
            \<and> \<not> has_row (foldl (exclude_other spec) ?st1 (map fst (widget_vars st))) other"
    proof (cases "is_selected st other")
      case True
      then have "other \<in> set (map fst (widget_vars st))" by (rule is_selected_shown)
      with a True show ?thesis
        by (simp add: is_selected_fold_exclude has_row_fold_exclude is_selected_write)
    next
      case False
      with r have "\<not> has_row st other" by (auto simp: rows_selected_iff)
      with a False show ?thesis
        by (simp add: is_selected_fold_exclude has_row_fold_exclude is_selected_write)
    qed
  qed
  from t o show ?thesis by blast
qed

text \<open>
  C4, as the source has it. From a state in which no two selected specs share a group
  and every spec with a row is selected, no sequence of toggles leads to a state in
  which two selected specs share a group. Selecting a spec of the selector leaves it
  selected with a row, and every other spec of its group unselected and without a row.
  The selector variable of the spec is written first; then, in the loop that runs
  before the row of the spec is made, the others are unselected and their rows removed:
  after the loop the spec is selected, has a row only if it had one before, and no other
  spec of the group is selected or has a row. With a catalog in which no two required
  specs of a command share a group, the states reached from start-up by any events
  have no two selected specs of one group.
\<close>

theorem mutual_exclusion:
  assumes "exclusive st" and "rows_selected st"
  shows "exclusive (foldl (\<lambda>s (spec, v). toggle s spec v) st ops)
       \<and> (map_of (widget_vars st) spec \<noteq> None \<longrightarrow>
            is_selected (toggle st spec True) spec \<and> has_row (toggle st spec True) spec
            \<and> (\<forall>other. other \<noteq> spec \<and> group_id spec \<noteq> None \<and> group_id other = group_id spec \<longrightarrow>
                 \<not> is_selected (toggle st spec True) other
                 \<and> \<not> has_row (toggle st spec True) other))
       \<and> (map_of (widget_vars st) spec \<noteq> None \<and> group_id spec \<noteq> None \<longrightarrow>
            toggle st spec True =
              save_prefs (ensure_selected_row
                (foldl (exclude_other spec)
                   (st\<lparr>widget_vars := AList.update spec True (widget_vars st)\<rparr>)
                   (map fst (widget_vars st))) spec)
            \<and> is_selected
                 (foldl (exclude_other spec)
                    (st\<lparr>widget_vars := AList.update spec True (widget_vars st)\<rparr>)
                    (map fst (widget_vars st))) spec
            \<and> has_row
                 (foldl (exclude_other spec)
                    (st\<lparr>widget_vars := AList.update spec True (widget_vars st)\<rparr>)
                    (map fst (widget_vars st))) spec = has_row st spec
            \<and> (\<forall>other. other \<noteq> spec \<and> group_id other = group_id spec \<longrightarrow>
                 \<not> is_selected
                     (foldl (exclude_other spec)
                        (st\<lparr>widget_vars := AList.update spec True (widget_vars st)\<rparr>)
                        (map fst (widget_vars st))) other
                 \<and> \<not> has_row
                     (foldl (exclude_other spec)
                        (st\<lparr>widget_vars := AList.update spec True (widget_vars st)\<rparr>)
                        (map fst (widget_vars st))) other))
       \<and> (catalog_apart metas \<longrightarrow> exclusive (run_events (startup metas d) evs))"
proof -
  have a: "exclusive (foldl (\<lambda>s (spec, v). toggle s spec v) st ops)"
    using assms(1) by (rule toggles_exclusive)
  have b: "map_of (widget_vars st) spec \<noteq> None \<longrightarrow>
            is_selected (toggle st spec True) spec \<and> has_row (toggle st spec True) spec
            \<and> (\<forall>other. other \<noteq> spec \<and> group_id spec \<noteq> None \<and> group_id other = group_id spec \<longrightarrow>
                 \<not> is_selected (toggle st spec True) other
                 \<and> \<not> has_row (toggle st spec True) other)"
    using assms(2) by (auto simp: toggle_on_selected toggle_on_rows rows_selected_iff)
  have c: "catalog_apart metas \<longrightarrow> exclusive (run_events (startup metas d) evs)"
    by (simp add: run_events_inv startup_inv)
  have s: "is_selected
                 (foldl (exclude_other spec)
                    (st\<lparr>widget_vars := AList.update spec True (widget_vars st)\<rparr>)
                    (map fst (widget_vars st))) spec"
    by (simp add: is_selected_fold_exclude is_selected_write)
  have h: "has_row
                 (foldl (exclude_other spec)
                    (st\<lparr>widget_vars := AList.update spec True (widget_vars st)\<rparr>)
                    (map fst (widget_vars st))) spec = has_row st spec"
    by (simp add: has_row_fold_exclude)
  from a b c s h exclusion_before_row [OF assms(2)] show ?thesis by blast
qed

text \<open>
  C4 as stated fails for a catalog in which two required specs of a command share a
  group: \<^verbatim>\<open>_on_command_change\<close> creates both selected with a row, and nothing unselects
  either.
\<close>

theorem required_pair_counterexample:
  "arguments pair_cmd = [east_spec, west_spec]
   \<and> east_spec \<noteq> west_spec
   \<and> group_id east_spec = Some 9 \<and> group_id west_spec = Some 9
   \<and> is_selected (startup pair_metas NoFile) east_spec
   \<and> is_selected (startup pair_metas NoFile) west_spec
   \<and> selected (startup pair_metas NoFile) = [(east_spec, ValueRow []), (west_spec, ValueRow [])]
   \<and> \<not> exclusive (startup pair_metas NoFile)"
  by code_simp


lemma spec_neq:
  "planetary_spec \<noteq> no_planet_spec" "no_planet_spec \<noteq> planetary_spec"
  "near_spec \<noteq> planetary_spec" "ly_spec \<noteq> planetary_spec"
  "planetary_spec \<noteq> near_spec" "planetary_spec \<noteq> ly_spec"
  by (simp_all add: planetary_spec_def no_planet_spec_def near_spec_def ly_spec_def)

theorem mutual_exclusion_witness:
  "exclusive session_a \<and> rows_selected session_a
   \<and> is_selected session_a planetary_spec \<and> has_row session_a planetary_spec
   \<and> group_id no_planet_spec = group_id planetary_spec
   \<and> is_selected (toggle session_a no_planet_spec True) no_planet_spec
   \<and> has_row (toggle session_a no_planet_spec True) no_planet_spec
   \<and> \<not> is_selected (toggle session_a no_planet_spec True) planetary_spec
   \<and> \<not> has_row (toggle session_a no_planet_spec True) planetary_spec
   \<and> exclusive (toggle (toggle session_a no_planet_spec True) planetary_spec True)"
proof -
  have e: "exclusive session_a" and r: "rows_selected session_a"
    by code_simp+
  have v: "map_of (widget_vars session_a) no_planet_spec \<noteq> None"
    by (simp add: session_a_facts spec_neq no_planet_spec_def near_spec_def ly_spec_def
        avoid_spec_def stations_spec_def planetary_spec_def)
  have g: "group_id no_planet_spec = group_id planetary_spec" "group_id no_planet_spec \<noteq> None"
    by (simp_all add: no_planet_spec_def planetary_spec_def)
  have p: "is_selected session_a planetary_spec" "has_row session_a planetary_spec"
    by code_simp+
  note m = mutual_exclusion [OF e r, of "[(no_planet_spec, True), (planetary_spec, True)]"
      no_planet_spec example_metas NoFile "[]"]
  from m have "exclusive (foldl (\<lambda>s (spec, v). toggle s spec v) session_a
                 [(no_planet_spec, True), (planetary_spec, True)])"
    by blast
  then have x: "exclusive (toggle (toggle session_a no_planet_spec True) planetary_spec True)"
    by simp
  from m v have y: "is_selected (toggle session_a no_planet_spec True) no_planet_spec"
    "has_row (toggle session_a no_planet_spec True) no_planet_spec"
    by blast+
  from m v have "\<forall>other. other \<noteq> no_planet_spec \<and> group_id no_planet_spec \<noteq> None
            \<and> group_id other = group_id no_planet_spec \<longrightarrow>
                 \<not> is_selected (toggle session_a no_planet_spec True) other
                 \<and> \<not> has_row (toggle session_a no_planet_spec True) other"
    by blast
  with g spec_neq(1) have z: "\<not> is_selected (toggle session_a no_planet_spec True) planetary_spec"
    "\<not> has_row (toggle session_a no_planet_spec True) planetary_spec"
    by metis+
  from e r p g(1) x y z show ?thesis by blast
qed


theorem toggle_off_frame_witness:
  "map_of (widget_vars session_a) planetary_spec = Some True
   \<and> selected (toggle session_a planetary_spec False)
       = [(near_spec, ValueRow ''Sol''), (ly_spec, ValueRow ''12'')]
   \<and> map_of (widget_vars (toggle session_a planetary_spec False)) planetary_spec = Some False
   \<and> map_of (widget_vars (toggle session_a planetary_spec False)) no_planet_spec = Some False
   \<and> map_of (widget_vars (toggle session_a planetary_spec False)) ly_spec = Some True"
proof -
  have v: "map_of (widget_vars session_a) planetary_spec = Some True"
    "map_of (widget_vars session_a) no_planet_spec = Some False"
    "map_of (widget_vars session_a) ly_spec = Some True"
    by code_simp+
  then have h: "map_of (widget_vars session_a) planetary_spec \<noteq> None" by simp
  from toggle_off_frame [OF h] have
    s: "selected (toggle session_a planetary_spec False)
          = filter (\<lambda>(k, wd). k \<noteq> planetary_spec) (selected session_a)" and
    c: "map_of (widget_vars (toggle session_a planetary_spec False)) planetary_spec = Some False" and
    o: "\<forall>other. other \<noteq> planetary_spec \<longrightarrow>
          map_of (widget_vars (toggle session_a planetary_spec False)) other
            = map_of (widget_vars session_a) other
          \<and> map_of (selected (toggle session_a planetary_spec False)) other
            = map_of (selected session_a) other"
    by blast+
  from o spec_neq v(2,3) have
    w: "map_of (widget_vars (toggle session_a planetary_spec False)) no_planet_spec = Some False"
       "map_of (widget_vars (toggle session_a planetary_spec False)) ly_spec = Some True"
    by simp_all
  from s have "selected (toggle session_a planetary_spec False)
       = [(near_spec, ValueRow ''Sol''), (ly_spec, ValueRow ''12'')]"
    by (simp add: session_a_facts(2) spec_neq)
  with v(1) c w show ?thesis by simp
qed

section \<open>Properties of saving\<close>

lemma keeps_refl [simp]: "keeps y st st"
  by (simp add: keeps_def)

lemma keeps_trans: "keeps y a b \<Longrightarrow> keeps y b c \<Longrightarrow> keeps y a c"
  by (auto simp: keeps_def)

lemma keeps_foldl:
  "(\<And>s x. keeps y s (f s x)) \<Longrightarrow> keeps y st (foldl f st xs)"
  by (rule foldl_invariant [where P = "\<lambda>x. keeps y st x"]) (auto intro: keeps_trans)

lemma save_cmd_state_other:
  "l \<noteq> y \<Longrightarrow> p_commands (save_cmd_state st l data) y = p_commands data y"
  by (simp add: save_cmd_state_def Let_def)

lemma keeps_save_prefs [simp]: "keeps y st (save_prefs st)"
  by (auto simp: keeps_def save_prefs_def Let_def save_cmd_state_other split: option.split)

lemma keeps_selection_update [simp]:
  "keeps y st (st\<lparr>selected := r\<rparr>)" "keeps y st (st\<lparr>widget_vars := w\<rparr>)"
  "keeps y st (st\<lparr>output_text := t\<rparr>)"
  by (simp_all add: keeps_def)

lemma keeps_ops [simp]:
  "keeps y st (remove_selected_row st spec)"
  "keeps y st (ensure_selected_row st spec)"
  "keeps y st (unselect_other st spec)"
  "keeps y st (exclude_other spec' st spec)"
  "keeps y st (edit_value st spec v)"
  "keeps y st (edit_flag st spec b)"
proof -
  show r: "\<And>st. keeps y st (remove_selected_row st spec)"
    by (auto simp: remove_selected_row_def split: option.split
        intro: keeps_trans [OF keeps_selection_update(1) keeps_save_prefs])
  show "keeps y st (ensure_selected_row st spec)"
    by (auto simp: ensure_selected_row_def split: option.split)
  show u: "\<And>st. keeps y st (unselect_other st spec)"
    unfolding unselect_other_def
    by (rule keeps_trans [OF keeps_selection_update(2) keeps_trans [OF r keeps_save_prefs]])
  show "keeps y st (exclude_other spec' st spec)"
    by (auto simp: exclude_other_def u split: option.split bool.split)
  show "keeps y st (edit_value st spec v)"
    by (auto simp: edit_value_def split: option.split row.split
        intro: keeps_trans [OF keeps_selection_update(1) keeps_save_prefs])
  show "keeps y st (edit_flag st spec b)"
    by (auto simp: edit_flag_def split: option.split row.split
        intro: keeps_trans [OF keeps_selection_update(1) keeps_save_prefs])
qed

lemma keeps_fold_exclude [simp]: "keeps y s (foldl (exclude_other spec) s ks)"
  by (rule keeps_foldl) simp

lemma keeps_on_toggle [simp]: "keeps y s (on_toggle_option s spec v)"
proof (cases v)
  case True
  have "keeps y s (ensure_selected_row (foldl (exclude_other spec) s (map fst (widget_vars s))) spec)"
    by (rule keeps_trans [OF keeps_fold_exclude keeps_ops(2)])
  with True show ?thesis
    by (simp add: on_toggle_option_def Let_def)
next
  case False
  then show ?thesis by (simp add: on_toggle_option_def Let_def)
qed

lemma keeps_toggle [simp]: "keeps y st (toggle st spec v)"
proof (cases "map_of (widget_vars st) spec")
  case None
  then show ?thesis by (simp add: toggle_def)
next
  case (Some b)
  let ?st1 = "st\<lparr>widget_vars := AList.update spec v (widget_vars st)\<rparr>"
  have "keeps y st (save_prefs (on_toggle_option ?st1 spec v))"
    by (rule keeps_trans [OF keeps_selection_update(2) keeps_trans [OF keeps_on_toggle keeps_save_prefs]])
  with Some show ?thesis by (simp add: toggle_def)
qed

lemma keeps_apply_spec [simp]: "keeps y st (apply_saved_spec m st spec)"
  unfolding apply_saved_spec_def Let_def
  by (auto split: option.split
      intro: keeps_trans [OF keeps_toggle keeps_trans [OF keeps_ops(2) keeps_ops(5)]]
             keeps_trans [OF keeps_toggle keeps_trans [OF keeps_ops(2) keeps_ops(6)]]
             keeps_trans [OF keeps_toggle keeps_ops(2)])

lemma keeps_apply [simp]: "keeps y st (apply_saved_state_for_current st)"
proof (cases "current_meta st")
  case None
  then show ?thesis by (simp add: apply_saved_state_for_current_def)
next
  case (Some m)
  have f: "keeps y st (foldl (apply_saved_spec m) st (current_specs st))"
    by (rule keeps_foldl) simp
  show ?thesis
    unfolding apply_saved_state_for_current_def Let_def
    using Some
    by (auto split: option.split intro: f keeps_trans [OF f keeps_selection_update(3)])
qed

lemma keeps_add_selector [simp]: "keeps y st (add_selector m st spec)"
  unfolding add_selector_def Let_def
  by (auto intro: keeps_trans [OF keeps_selection_update(2) keeps_ops(2)])

lemma keeps_click [simp]: "keeps y st (click st spec)"
  by (auto simp: click_def split: option.split)


lemma keeps_fields:
  assumes "keeps y st st'"
  shows "cmd_var st' = cmd_var st" "suspend_save st' = suspend_save st"
    "current_cmd_label st' = current_cmd_label st"
    "cmd_var st \<noteq> y \<Longrightarrow> p_commands (prefs st') y = p_commands (prefs st) y"
    "disk st = Stored (prefs st) \<Longrightarrow> disk st' = Stored (prefs st')"
    "detail_var st' = detail_var st" "quiet_var st' = quiet_var st" "debug_var st' = debug_var st"
  using assms by (simp_all add: keeps_def)

lemma save_state_for_label_frame:
  "l \<noteq> y \<Longrightarrow> p_commands (prefs (save_state_for_label st l)) y = p_commands (prefs st) y"
  "disk st = Stored (prefs st) \<Longrightarrow>
     disk (save_state_for_label st l) = Stored (prefs (save_state_for_label st l))"
  "suspend_save (save_state_for_label st l) = suspend_save st"
  "current_cmd_label (save_state_for_label st l) = current_cmd_label st"
  by (simp_all add: save_state_for_label_def Let_def save_cmd_state_other)

text \<open>A command change writes under the previous label and under the new one only.\<close>

lemma on_command_change_frame:
  assumes c: "cmd_var st \<noteq> y" and l: "current_cmd_label st \<noteq> Some y"
  shows "p_commands (prefs (on_command_change st)) y = p_commands (prefs st) y"
    and "cmd_var (on_command_change st) = cmd_var st"
    and "current_cmd_label (on_command_change st) \<noteq> Some y"
    and "suspend_save (on_command_change st) = suspend_save st"
    and "disk st = Stored (prefs st) \<Longrightarrow>
           disk (on_command_change st) = Stored (prefs (on_command_change st))"
proof -
  define st0 where "st0 = (case current_cmd_label st of
                   None \<Rightarrow> st
                 | Some prev_label \<Rightarrow>
                     if prev_label \<noteq> [] \<and> current_meta st \<noteq> None
                     then save_state_for_label st prev_label else st)"
  have st0: "cmd_var st0 = cmd_var st" "cmd_metas st0 = cmd_metas st"
    "suspend_save st0 = suspend_save st" "current_cmd_label st0 = current_cmd_label st"
    "p_commands (prefs st0) y = p_commands (prefs st) y"
    "disk st = Stored (prefs st) \<Longrightarrow> disk st0 = Stored (prefs st0)"
    using l by (auto simp: st0_def save_state_for_label_frame split: option.split)
  define st1 where
    "st1 = st0\<lparr>current_meta := map_of (cmd_metas st0) (cmd_var st0), widget_vars := [], selected := []\<rparr>"
  have st1: "cmd_var st1 = cmd_var st" "suspend_save st1 = suspend_save st"
    "current_cmd_label st1 = current_cmd_label st"
    "p_commands (prefs st1) y = p_commands (prefs st) y"
    "disk st = Stored (prefs st) \<Longrightarrow> disk st1 = Stored (prefs st1)"
    using st0 by (simp_all add: st1_def)
  have nf: "on_command_change st =
      (case current_meta st1 of
         None \<Rightarrow> st1
       | Some m \<Rightarrow>
           (save_prefs (apply_saved_state_for_current
              (foldl (add_selector m) st1 (current_specs st1))))
           \<lparr>current_cmd_label := Some (cmd_var st0)\<rparr>)"
    by (simp only: on_command_change_def Let_def st0_def st1_def)
  have main: "(p_commands (prefs (on_command_change st)) y = p_commands (prefs st) y)
      \<and> (cmd_var (on_command_change st) = cmd_var st)
      \<and> (current_cmd_label (on_command_change st) \<noteq> Some y)
      \<and> (suspend_save (on_command_change st) = suspend_save st)
      \<and> (disk st = Stored (prefs st) \<longrightarrow>
           disk (on_command_change st) = Stored (prefs (on_command_change st)))"
  proof (cases "current_meta st1")
    case None
    then have "on_command_change st = st1"
      by (simp add: nf)
    with st1 l show ?thesis
      by simp
  next
    case (Some m)
    define st4 where "st4 = save_prefs (apply_saved_state_for_current
                              (foldl (add_selector m) st1 (current_specs st1)))"
    have occ: "on_command_change st = st4\<lparr>current_cmd_label := Some (cmd_var st)\<rparr>"
      using Some st0(1) by (simp add: nf st4_def)
    have f: "keeps y st1 (foldl (add_selector m) st1 (current_specs st1))"
      by (rule keeps_foldl) simp
    have k: "keeps y st1 st4"
      unfolding st4_def
      by (rule keeps_trans [OF f keeps_trans [OF keeps_apply keeps_save_prefs]])
    from keeps_fields [OF k] st1 c show ?thesis
      by (simp add: occ)
  qed
  from main show "p_commands (prefs (on_command_change st)) y = p_commands (prefs st) y"
    and "cmd_var (on_command_change st) = cmd_var st"
    and "current_cmd_label (on_command_change st) \<noteq> Some y"
    and "suspend_save (on_command_change st) = suspend_save st"
    and "disk st = Stored (prefs st) \<Longrightarrow>
           disk (on_command_change st) = Stored (prefs (on_command_change st))"
    by blast+
qed

lemma save_state_for_label_counters [simp]:
  "detail_var (save_state_for_label st l) = detail_var st"
  "quiet_var (save_state_for_label st l) = quiet_var st"
  "debug_var (save_state_for_label st l) = debug_var st"
  by (simp_all add: save_state_for_label_def Let_def)

lemma on_command_change_counters [simp]:
  "detail_var (on_command_change st) = detail_var st"
  "quiet_var (on_command_change st) = quiet_var st"
  "debug_var (on_command_change st) = debug_var st"
proof -
  define st0 where "st0 = (case current_cmd_label st of
                   None \<Rightarrow> st
                 | Some prev_label \<Rightarrow>
                     if prev_label \<noteq> [] \<and> current_meta st \<noteq> None
                     then save_state_for_label st prev_label else st)"
  have st0: "detail_var st0 = detail_var st" "quiet_var st0 = quiet_var st"
    "debug_var st0 = debug_var st"
    by (simp_all add: st0_def split: option.split)
  define st1 where
    "st1 = st0\<lparr>current_meta := map_of (cmd_metas st0) (cmd_var st0), widget_vars := [], selected := []\<rparr>"
  have nf: "on_command_change st =
      (case current_meta st1 of
         None \<Rightarrow> st1
       | Some m \<Rightarrow>
           (save_prefs (apply_saved_state_for_current
              (foldl (add_selector m) st1 (current_specs st1))))
           \<lparr>current_cmd_label := Some (cmd_var st0)\<rparr>)"
    by (simp only: on_command_change_def Let_def st0_def st1_def)
  have k: "\<And>m. keeps [] st1 (save_prefs (apply_saved_state_for_current
              (foldl (add_selector m) st1 (current_specs st1))))"
  proof -
    fix m
    have f: "keeps [] st1 (foldl (add_selector m) st1 (current_specs st1))"
      by (rule keeps_foldl) simp
    show "keeps [] st1 (save_prefs (apply_saved_state_for_current
              (foldl (add_selector m) st1 (current_specs st1))))"
      by (rule keeps_trans [OF f keeps_trans [OF keeps_apply keeps_save_prefs]])
  qed
  have c1: "detail_var st1 = detail_var st" "quiet_var st1 = quiet_var st"
    "debug_var st1 = debug_var st"
    using st0 by (simp_all add: st1_def)
  show "detail_var (on_command_change st) = detail_var st"
    using keeps_fields(6) [OF k] c1 by (simp add: nf split: option.split)
  show "quiet_var (on_command_change st) = quiet_var st"
    using keeps_fields(7) [OF k] c1 by (simp add: nf split: option.split)
  show "debug_var (on_command_change st) = debug_var st"
    using keeps_fields(8) [OF k] c1 by (simp add: nf split: option.split)
qed

lemma step_counters [simp]:
  "detail_var (step st ev) = detail_var st"
  "quiet_var (step st ev) = quiet_var st"
  "debug_var (step st ev) = debug_var st"
proof -
  have k: "\<And>spec v b. keeps [] st (click st spec) \<and> keeps [] st (edit_value st spec v)
      \<and> keeps [] st (edit_flag st spec b)"
    by simp
  show "detail_var (step st ev) = detail_var st"
    using k by (cases ev) (simp_all add: keeps_def select_command_def)
  show "quiet_var (step st ev) = quiet_var st"
    using k by (cases ev) (simp_all add: keeps_def select_command_def)
  show "debug_var (step st ev) = debug_var st"
    using k by (cases ev) (simp_all add: keeps_def select_command_def)
qed

lemma run_events_counters [simp]:
  "detail_var (run_events st evs) = detail_var st"
  "quiet_var (run_events st evs) = quiet_var st"
  "debug_var (run_events st evs) = debug_var st"
proof -
  show "detail_var (run_events st evs) = detail_var st"
    unfolding run_events_def
    by (rule foldl_invariant [where P = "\<lambda>x. detail_var x = detail_var st"]) simp_all
  show "quiet_var (run_events st evs) = quiet_var st"
    unfolding run_events_def
    by (rule foldl_invariant [where P = "\<lambda>x. quiet_var x = quiet_var st"]) simp_all
  show "debug_var (run_events st evs) = debug_var st"
    unfolding run_events_def
    by (rule foldl_invariant [where P = "\<lambda>x. debug_var x = debug_var st"]) simp_all
qed


lemma apply_counters [simp]:
  "detail_var (apply_saved_state_for_current st) = detail_var st"
  "quiet_var (apply_saved_state_for_current st) = quiet_var st"
  "debug_var (apply_saved_state_for_current st) = debug_var st"
  using keeps_apply [of "[]" st] by (simp_all add: keeps_def)


lemma on_command_change_basic:
  "cmd_var (on_command_change st) = cmd_var st"
  "suspend_save (on_command_change st) = suspend_save st"
  "current_cmd_label (on_command_change st) = Some (cmd_var st)
     \<or> current_cmd_label (on_command_change st) = current_cmd_label st"
proof -
  define st0 where "st0 = (case current_cmd_label st of
                   None \<Rightarrow> st
                 | Some prev_label \<Rightarrow>
                     if prev_label \<noteq> [] \<and> current_meta st \<noteq> None
                     then save_state_for_label st prev_label else st)"
  have st0: "cmd_var st0 = cmd_var st" "suspend_save st0 = suspend_save st"
    "current_cmd_label st0 = current_cmd_label st"
    by (simp_all add: st0_def save_state_for_label_def Let_def split: option.split)
  define st1 where
    "st1 = st0\<lparr>current_meta := map_of (cmd_metas st0) (cmd_var st0), widget_vars := [], selected := []\<rparr>"
  have nf: "on_command_change st =
      (case current_meta st1 of
         None \<Rightarrow> st1
       | Some m \<Rightarrow>
           (save_prefs (apply_saved_state_for_current
              (foldl (add_selector m) st1 (current_specs st1))))
           \<lparr>current_cmd_label := Some (cmd_var st0)\<rparr>)"
    by (simp only: on_command_change_def Let_def st0_def st1_def)
  have k: "\<And>m. keeps [] st1 (save_prefs (apply_saved_state_for_current
              (foldl (add_selector m) st1 (current_specs st1))))"
  proof -
    fix m
    have f: "keeps [] st1 (foldl (add_selector m) st1 (current_specs st1))"
      by (rule keeps_foldl) simp
    show "keeps [] st1 (save_prefs (apply_saved_state_for_current
              (foldl (add_selector m) st1 (current_specs st1))))"
      by (rule keeps_trans [OF f keeps_trans [OF keeps_apply keeps_save_prefs]])
  qed
  have c1: "cmd_var st1 = cmd_var st" "suspend_save st1 = suspend_save st"
    "current_cmd_label st1 = current_cmd_label st"
    using st0 by (simp_all add: st1_def)
  show "cmd_var (on_command_change st) = cmd_var st"
    using keeps_fields(1) [OF k] c1 by (simp add: nf split: option.split)
  show "suspend_save (on_command_change st) = suspend_save st"
    using keeps_fields(2) [OF k] c1 by (simp add: nf split: option.split)
  show "current_cmd_label (on_command_change st) = Some (cmd_var st)
     \<or> current_cmd_label (on_command_change st) = current_cmd_label st"
    using c1 st0 by (simp add: nf split: option.split)
qed

lemma apart_keeps: "apart y e st \<Longrightarrow> keeps y st st' \<Longrightarrow> apart y e st'"
  by (simp add: apart_def keeps_def)

lemma apart_select:
  assumes a: "apart y e st" and l: "l \<noteq> y"
  shows "apart y e (select_command st l)"
proof -
  let ?s = "st\<lparr>cmd_var := l\<rparr>"
  have c: "cmd_var ?s \<noteq> y" using l by simp
  have b: "current_cmd_label ?s \<noteq> Some y" using a by (simp add: apart_def)
  have d: "disk ?s = Stored (prefs ?s)" using a by (simp add: apart_def)
  from on_command_change_frame(1) [OF c b] on_command_change_frame(2) [OF c b]
    on_command_change_frame(3) [OF c b] on_command_change_frame(4) [OF c b]
    on_command_change_frame(5) [OF c b d] a l
  show ?thesis
    by (simp add: apart_def select_command_def)
qed

lemma apart_step:
  assumes a: "apart y e st" and n: "ev \<noteq> SelectCommand y"
  shows "apart y e (step st ev)"
proof (cases ev)
  case (Click spec)
  then show ?thesis using apart_keeps [OF a keeps_click] by simp
next
  case (EditValue spec v)
  then show ?thesis using apart_keeps [OF a keeps_ops(5)] by simp
next
  case (EditFlag spec b)
  then show ?thesis using apart_keeps [OF a keeps_ops(6)] by simp
next
  case (SelectCommand l)
  then show ?thesis using apart_select [OF a, of l] n by simp
qed

lemma apart_run:
  assumes a: "apart y e st" and n: "SelectCommand y \<notin> set evs"
  shows "apart y e (run_events st evs)"
  using n a
proof (induction evs arbitrary: st)
  case Nil
  then show ?case by (simp add: run_events_def)
next
  case (Cons ev evs)
  from Cons.prems have "apart y e (step st ev)"
    by (auto intro: apart_step)
  with Cons.IH [of "step st ev"] Cons.prems(1) show ?case
    by (simp add: run_events_def)
qed

lemma load_prefs_initial:
  "suspend_save (load_prefs (initial_app metas f))"
  "current_cmd_label (load_prefs (initial_app metas f)) = None"
  "p_commands (prefs (load_prefs (initial_app metas f))) y = stored_cmd f y"
  by (auto simp: load_prefs_def Let_def set_cwd_def set_db_def set_linkly_def set_detail_def
      set_quiet_def set_debug_def save_prefs_def initial_app_def stored_cmd_def empty_prefs_def
      split: disk_file.split option.split)

lemma save_prefs_writes:
  "\<not> suspend_save st \<Longrightarrow> disk (save_prefs st) = Stored (prefs (save_prefs st))"
  by (simp add: save_prefs_def Let_def)

lemma startup_apart:
  assumes c: "cmd_var (startup metas f) \<noteq> y"
  shows "apart y (stored_cmd f y) (startup metas f)"
proof -
  define st1 where "st1 = load_prefs (initial_app metas f)"
  have f1: "suspend_save st1" "current_cmd_label st1 = None"
    "p_commands (prefs st1) y = stored_cmd f y"
    by (simp_all add: st1_def load_prefs_initial)
  define st2 where "st2 = (case sort (map fst metas) of
                   [] \<Rightarrow> st1
                 | first_cmd # _ \<Rightarrow>
                     (let label = (case restore_cmd st1 of
                                     None \<Rightarrow> first_cmd
                                   | Some r \<Rightarrow> if map_of metas r \<noteq> None then r else first_cmd)
                      in apply_saved_state_for_current (select_command st1 label)))"
  have su: "startup metas f = save_prefs (st2\<lparr>suspend_save := False\<rparr>)"
    by (simp only: startup_def Let_def st1_def st2_def)
  have k: "keeps y (st2\<lparr>suspend_save := False\<rparr>) (startup metas f)"
    unfolding su by simp
  from keeps_fields(1) [OF k] c have c2: "cmd_var st2 \<noteq> y"
    by simp
  have sel: "\<And>l. cmd_var (apply_saved_state_for_current (select_command st1 l)) \<noteq> y \<Longrightarrow>
      current_cmd_label (apply_saved_state_for_current (select_command st1 l)) \<noteq> Some y
      \<and> p_commands (prefs (apply_saved_state_for_current (select_command st1 l))) y
          = stored_cmd f y"
  proof -
    fix l
    let ?s = "st1\<lparr>cmd_var := l\<rparr>"
    let ?a = "apply_saved_state_for_current (select_command st1 l)"
    assume n: "cmd_var ?a \<noteq> y"
    have ka: "keeps y (select_command st1 l) ?a"
      by simp
    from keeps_fields(1) [OF ka] n have "cmd_var (select_command st1 l) \<noteq> y"
      by simp
    then have ly: "cmd_var ?s \<noteq> y"
      by (simp add: select_command_def on_command_change_basic(1))
    have b: "current_cmd_label ?s \<noteq> Some y"
      using f1 by simp
    from on_command_change_frame(1) [OF ly b] on_command_change_frame(2) [OF ly b]
      on_command_change_frame(3) [OF ly b] f1 ly
    have "cmd_var (select_command st1 l) \<noteq> y
        \<and> current_cmd_label (select_command st1 l) \<noteq> Some y
        \<and> p_commands (prefs (select_command st1 l)) y = stored_cmd f y"
      by (simp add: select_command_def)
    with keeps_fields(3) [OF ka] keeps_fields(4) [OF ka]
    show "current_cmd_label ?a \<noteq> Some y \<and> p_commands (prefs ?a) y = stored_cmd f y"
      by simp
  qed
  have s2: "current_cmd_label st2 \<noteq> Some y \<and> p_commands (prefs st2) y = stored_cmd f y"
  proof (cases "sort (map fst metas)")
    case Nil
    then have "st2 = st1" by (simp add: st2_def)
    with f1 show ?thesis by simp
  next
    case (Cons first_cmd others)
    then obtain l where "st2 = apply_saved_state_for_current (select_command st1 l)"
      by (simp add: st2_def Let_def)
    with sel [of l] c2 show ?thesis by simp
  qed
  from keeps_fields [OF k] s2 c2 save_prefs_writes [of "st2\<lparr>suspend_save := False\<rparr>"]
  show ?thesis
    by (simp add: apart_def su)
qed


lemma save_state_for_label_writes:
  "l \<noteq> [] \<Longrightarrow> current_meta st \<noteq> None \<Longrightarrow> \<not> suspend_save st \<Longrightarrow>
     disk (save_state_for_label st l) = Stored (prefs (save_state_for_label st l))"
  by (auto simp: save_state_for_label_def Let_def)

section \<open>Saving leaves the other commands alone\<close>

text \<open>
  C6. Saving for a command \<open>x\<close> leaves the entry of every other command \<open>y\<close> as it is in
  the document that was loaded: after \<^verbatim>\<open>_save_prefs\<close> (which saves for the current
  command) and after \<^verbatim>\<open>_save_state_for_label\<close> the file holds for \<open>y\<close> what the loaded
  document held, and after a whole session in which \<open>y\<close> was never the current command
  the file holds for \<open>y\<close> what the file held at start-up (nothing, when it held nothing).
\<close>

theorem save_is_non_destructive:
  assumes "x \<noteq> y"
  shows "(cmd_var st = x \<and> \<not> suspend_save st \<longrightarrow>
            stored_cmd (disk (save_prefs st)) y = p_commands (prefs st) y)
     \<and> (x \<noteq> [] \<and> current_meta st \<noteq> None \<and> \<not> suspend_save st \<longrightarrow>
            stored_cmd (disk (save_state_for_label st x)) y = p_commands (prefs st) y)
     \<and> (cmd_var (startup metas f) \<noteq> y \<and> SelectCommand y \<notin> set evs \<longrightarrow>
            stored_cmd (disk (run_events (startup metas f) evs)) y = stored_cmd f y)"
proof (intro conjI impI)
  assume a: "cmd_var st = x \<and> \<not> suspend_save st"
  then have "disk (save_prefs st) = Stored (prefs (save_prefs st))"
    by (simp add: save_prefs_writes)
  moreover have "p_commands (prefs (save_prefs st)) y = p_commands (prefs st) y"
    using a assms keeps_fields(4) [OF keeps_save_prefs, of st y] by simp
  ultimately show "stored_cmd (disk (save_prefs st)) y = p_commands (prefs st) y"
    by (simp add: stored_cmd_def)
next
  assume a: "x \<noteq> [] \<and> current_meta st \<noteq> None \<and> \<not> suspend_save st"
  then have "disk (save_state_for_label st x) = Stored (prefs (save_state_for_label st x))"
    by (simp add: save_state_for_label_writes)
  with save_state_for_label_frame(1) [OF assms, of st]
  show "stored_cmd (disk (save_state_for_label st x)) y = p_commands (prefs st) y"
    by (simp add: stored_cmd_def)
next
  assume a: "cmd_var (startup metas f) \<noteq> y \<and> SelectCommand y \<notin> set evs"
  then have "apart y (stored_cmd f y) (run_events (startup metas f) evs)"
    by (simp add: apart_run startup_apart)
  then show "stored_cmd (disk (run_events (startup metas f) evs)) y = stored_cmd f y"
    by (simp add: apart_def stored_cmd_def)
qed

theorem save_is_non_destructive_witness:
  "cmd_var (startup example_metas (Stored saved_doc)) = ''local''
   \<and> stored_cmd (disk (save_prefs (startup example_metas (Stored saved_doc)))) ''Update/Rebuild DB''
       = p_commands (prefs (startup example_metas (Stored saved_doc))) ''Update/Rebuild DB''
   \<and> stored_cmd (disk (save_state_for_label (startup example_metas (Stored saved_doc)) ''local''))
         ''Update/Rebuild DB''
       = p_commands (prefs (startup example_metas (Stored saved_doc))) ''Update/Rebuild DB''
   \<and> stored_cmd (disk (run_events (startup example_metas (Stored saved_doc))
                         [Click stations_spec, EditValue ly_spec ''15'']))
         ''Update/Rebuild DB''
       = Some \<lparr>cs_options = Map.empty, cs_output = Some ''done''\<rparr>"
proof -
  let ?st = "startup example_metas (Stored saved_doc)"
  have n: "''local'' \<noteq> ''Update/Rebuild DB''" "''local'' \<noteq> []"
    by simp_all
  have a: "cmd_var ?st = ''local''"
    by code_simp
  have b: "\<not> suspend_save ?st"
    by code_simp
  have m: "current_meta ?st \<noteq> None"
    by code_simp
  have c: "SelectCommand ''Update/Rebuild DB'' \<notin> set [Click stations_spec, EditValue ly_spec ''15'']"
    by simp
  have d: "stored_cmd (Stored saved_doc) ''Update/Rebuild DB''
       = Some \<lparr>cs_options = Map.empty, cs_output = Some ''done''\<rparr>"
    by (simp add: stored_cmd_def saved_doc_def)
  from save_is_non_destructive [OF n(1), of ?st example_metas "Stored saved_doc"
      "[Click stations_spec, EditValue ly_spec ''15'']"] a b m c d n
  show ?thesis
    by simp
qed

section \<open>The counters\<close>







section \<open>Saving, loading and applying again\<close>

lemma session_a_state:
  "selection_state session_a
     = ([near_spec, ly_spec, planetary_spec],
        [(near_spec, ValueRow ''Sol''), (ly_spec, ValueRow ''12''),
         (planetary_spec, ValueRow ''YN'')],
        [])"
  by code_simp

lemma session_b_stored:
  "stored_state (disk session_b) ''local'' [''near'', ''maxLyPer'', ''--planetary'']
     = Some ([Some \<lparr>r_selected = Some True, r_flag = None, r_value = Some ''Sol''\<rparr>,
              Some \<lparr>r_selected = Some True, r_flag = None, r_value = Some ''12''\<rparr>,
              Some \<lparr>r_selected = Some True, r_flag = None, r_value = Some ''YN''\<rparr>],
             Some [CHR 0x0A])"
  by code_simp

lemma session_c_state:
  "selection_state session_c
     = ([near_spec], [(near_spec, ValueRow [])], [CHR 0x0A, CHR 0x0A, CHR 0x0A])"
  by code_simp

lemma session_b_back:
  "selection_state (run_events session_b [SelectCommand ''local''])
     = ([near_spec], [(near_spec, ValueRow [])], [CHR 0x0A, CHR 0x0A])"
  by code_simp

lemma session_a_restart:
  "selection_state (startup example_metas (disk session_a))
     = ([near_spec, ly_spec, planetary_spec],
        [(near_spec, ValueRow ''Sol''), (ly_spec, ValueRow ''12''),
         (planetary_spec, ValueRow ''YN'')],
        [CHR 0x0A])"
  by code_simp

text \<open>
  C5 does not hold of the code. In the session \<open>session_a\<close> the command \<^verbatim>\<open>local\<close> has the
  rows Sol, 12 and YN and an empty output pane; switching to another command saves
  them faithfully (\<open>session_b\<close>). A new start from that file, followed by the choice of
  \<^verbatim>\<open>local\<close> (\<open>session_c\<close>), shows the required row only, and that one empty, and an output
  of three line breaks: the other specs are not selected. The same happens without
  the restart. Only the command that start-up itself restores, while saving is
  suspended, gets its selection and rows back, and its output one line break longer.
\<close>

theorem round_trip_loses_state:
  "selection_state session_a
     = ([near_spec, ly_spec, planetary_spec],
        [(near_spec, ValueRow ''Sol''), (ly_spec, ValueRow ''12''),
         (planetary_spec, ValueRow ''YN'')],
        [])
   \<and> stored_state (disk session_b) ''local'' [''near'', ''maxLyPer'', ''--planetary'']
     = Some ([Some \<lparr>r_selected = Some True, r_flag = None, r_value = Some ''Sol''\<rparr>,
              Some \<lparr>r_selected = Some True, r_flag = None, r_value = Some ''12''\<rparr>,
              Some \<lparr>r_selected = Some True, r_flag = None, r_value = Some ''YN''\<rparr>],
             Some [CHR 0x0A])
   \<and> selection_state session_c
     = ([near_spec], [(near_spec, ValueRow [])], [CHR 0x0A, CHR 0x0A, CHR 0x0A])
   \<and> selection_state session_c \<noteq> selection_state session_a
   \<and> selection_state (run_events session_b [SelectCommand ''local''])
     = ([near_spec], [(near_spec, ValueRow [])], [CHR 0x0A, CHR 0x0A])
   \<and> selection_state (startup example_metas (disk session_a))
     = ([near_spec, ly_spec, planetary_spec],
        [(near_spec, ValueRow ''Sol''), (ly_spec, ValueRow ''12''),
         (planetary_spec, ValueRow ''YN'')],
        [CHR 0x0A])"
  using session_a_state session_b_stored session_c_state session_b_back session_a_restart
  by simp

end
